theory Spec2Isabelle
  imports Complex_Main
begin

section \<open>Strings\<close>

text \<open>
  A JavaScript string is modelled as a \<^typ>\<open>string\<close> whose characters are the code units
  below 256 (ASCII and Latin-1). On that range the regular-expression class \<open>\s\<close> and
  \<open>String.prototype.trim\<close> agree on tab, line feed, vertical tab, form feed, carriage
  return, space and the no-break space.
\<close>

definition is_space :: "char \<Rightarrow> bool" where
  "is_space c = (let n = (of_char c :: nat) in (9 \<le> n \<and> n \<le> 13) \<or> n = 32 \<or> n = 160)"

definition is_digit :: "char \<Rightarrow> bool" where
  "is_digit c = (let n = (of_char c :: nat) in 48 \<le> n \<and> n \<le> 57)"

definition is_upper :: "char \<Rightarrow> bool" where
  "is_upper c = (let n = (of_char c :: nat) in 65 \<le> n \<and> n \<le> 90)"

definition is_lower :: "char \<Rightarrow> bool" where
  "is_lower c = (let n = (of_char c :: nat) in 97 \<le> n \<and> n \<le> 122)"

text \<open>The class \<open>\w\<close>, which decides where \<open>\b\<close> holds.\<close>

definition is_word_char :: "char \<Rightarrow> bool" where
  "is_word_char c = (is_upper c \<or> is_lower c \<or> is_digit c \<or> c = CHR ''_'')"

text \<open>
  \<open>toLowerCase\<close> on one code unit: the ASCII capitals and the Latin-1 capitals
  (U+00C0 to U+00DE without the multiplication sign U+00D7) move up by 32.
\<close>

definition to_lower_char :: "char \<Rightarrow> char" where
  "to_lower_char c =
     (let n = (of_char c :: nat)
      in if (65 \<le> n \<and> n \<le> 90) \<or> (192 \<le> n \<and> n \<le> 222 \<and> n \<noteq> 215)
         then char_of (n + 32) else c)"

definition toLowerCase :: "string \<Rightarrow> string" where
  "toLowerCase s = map to_lower_char s"

text \<open>
  Two code units are equal under the \<open>i\<close> flag when they agree after folding the
  ASCII capitals; every pattern of the program is written in ASCII.
\<close>

definition fold_ascii :: "char \<Rightarrow> char" where
  "fold_ascii c = (if is_upper c then char_of ((of_char c :: nat) + 32) else c)"

fun strip_ci :: "string \<Rightarrow> string \<Rightarrow> string option" where
  "strip_ci [] s = Some s"
| "strip_ci (p # ps) [] = None"
| "strip_ci (p # ps) (c # cs) =
     (if fold_ascii c = fold_ascii p then strip_ci ps cs else None)"

definition trim :: "string \<Rightarrow> string" where
  "trim s = rev (dropWhile is_space (rev (dropWhile is_space s)))"

section \<open>Thread builder: subject normalisation\<close>

text \<open>
  \<open>replace(/^(re|fwd|fw):\s*/gi, "")\<close>. The pattern is anchored at the start of the
  input and the \<open>m\<close> flag is absent, so the \<open>g\<close> flag finds no second match: one
  prefix is removed, with the white space that follows it.
\<close>

definition match_reply_prefix :: "string \<Rightarrow> string option" where
  "match_reply_prefix s =
     (case strip_ci ''re:'' s of
        Some r \<Rightarrow> Some r
      | None \<Rightarrow>
          (case strip_ci ''fwd:'' s of
             Some r \<Rightarrow> Some r
           | None \<Rightarrow> strip_ci ''fw:'' s))"

definition strip_reply_prefix :: "string \<Rightarrow> string" where
  "strip_reply_prefix s =
     (case match_reply_prefix s of
        Some r \<Rightarrow> dropWhile is_space r
      | None \<Rightarrow> s)"

text \<open>\<open>replace(/\[external\]/gi, "")\<close>: every occurrence, scanning left to right.\<close>

function remove_external :: "string \<Rightarrow> string" where
  "remove_external [] = []"
| "remove_external (c # cs) =
     (case strip_ci ''[external]'' (c # cs) of
        Some r \<Rightarrow> remove_external (drop 10 (c # cs))
      | None \<Rightarrow> c # remove_external cs)"
  by pat_completeness auto
termination
  by (relation "measure length") auto

text \<open>\<open>replace(/\s+/g, " ")\<close>: every maximal run of white space becomes one space.\<close>

function collapse_ws :: "string \<Rightarrow> string" where
  "collapse_ws [] = []"
| "collapse_ws (c # cs) =
     (if is_space c then CHR '' '' # collapse_ws (dropWhile is_space cs)
      else c # collapse_ws cs)"
  by pat_completeness auto
termination
  by (relation "measure length") (auto simp: length_dropWhile_le less_Suc_eq_le)

definition normalizeSubject :: "string \<Rightarrow> string" where
  "normalizeSubject subject =
     (if subject = [] then []
      else toLowerCase (trim (collapse_ws (remove_external (strip_reply_prefix subject)))))"



section \<open>Bounce detector: SMTP status code\<close>

definition is_code_start :: "char \<Rightarrow> bool" where
  "is_code_start c = (c = CHR ''2'' \<or> c = CHR ''4'' \<or> c = CHR ''5'')"

text \<open>
  \<open>/\b([245]\d{2})\b/\<close> tried at the head of the remaining input. The three digits are
  word characters, so the closing \<open>\b\<close> asks for the end of the input or a character
  outside \<open>\w\<close>; the opening \<open>\b\<close> is decided by the character before, which the
  scan carries along.
\<close>

fun code_here :: "string \<Rightarrow> bool" where
  "code_here (a # b # c # rest) =
     (is_code_start a \<and> is_digit b \<and> is_digit c \<and>
      (case rest of [] \<Rightarrow> True | d # _ \<Rightarrow> \<not> is_word_char d))"
| "code_here _ = False"

fun scan_code :: "bool \<Rightarrow> string \<Rightarrow> string option" where
  "scan_code prev_word [] = None"
| "scan_code prev_word (c # cs) =
     (if \<not> prev_word \<and> code_here (c # cs) then Some (take 3 (c # cs))
      else scan_code (is_word_char c) cs)"

definition extractErrorCode :: "string \<Rightarrow> string option" where
  "extractErrorCode body = scan_code False body"

text \<open>The field \<open>errorCode: errorCode || "UNKNOWN"\<close> of the object \<open>parseBounce\<close> returns.\<close>

definition parseBounce_errorCode :: "string \<Rightarrow> string" where
  "parseBounce_errorCode body =
     (case extractErrorCode body of Some code \<Rightarrow> code | None \<Rightarrow> ''UNKNOWN'')"

text \<open>
  The specification's wording, for comparison: the first substring of the body that
  matches \<open>[245]\d{2}\<close>, wherever it stands.
\<close>

fun spec_first_code :: "string \<Rightarrow> string option" where
  "spec_first_code (a # b # c # rest) =
     (if is_code_start a \<and> is_digit b \<and> is_digit c then Some [a, b, c]
      else spec_first_code (b # c # rest))"
| "spec_first_code _ = None"

definition spec_error_code :: "string \<Rightarrow> string" where
  "spec_error_code body =
     (case spec_first_code body of Some code \<Rightarrow> code | None \<Rightarrow> ''UNKNOWN'')"

text \<open>
  A code delimited by word boundaries starts at index \<open>i\<close> of the body. \<open>pw\<close> tells
  whether a word character stands before index 0 (never, for a whole body).
\<close>

definition code_at_from :: "bool \<Rightarrow> string \<Rightarrow> nat \<Rightarrow> bool" where
  "code_at_from pw body i =
     (i + 3 \<le> length body \<and>
      is_code_start (body ! i) \<and> is_digit (body ! (i + 1)) \<and> is_digit (body ! (i + 2)) \<and>
      (if i = 0 then \<not> pw else \<not> is_word_char (body ! (i - 1))) \<and>
      (i + 3 = length body \<or> \<not> is_word_char (body ! (i + 3))))"

definition code_at :: "string \<Rightarrow> nat \<Rightarrow> bool" where
  "code_at body i = code_at_from False body i"

section \<open>IMAP client: the SINCE date\<close>

text \<open>
  The local calendar fields of a \<open>Date\<close>: \<open>getFullYear\<close>, \<open>getMonth\<close> (0 to 11) and
  \<open>getDate\<close> (1 to 31).
\<close>

record date =
  fullYear :: int
  month :: nat
  day :: nat

definition is_leap :: "int \<Rightarrow> bool" where
  "is_leap y = (y mod 4 = 0 \<and> (y mod 100 \<noteq> 0 \<or> y mod 400 = 0))"

definition days_in_month :: "int \<Rightarrow> nat \<Rightarrow> nat" where
  "days_in_month y m =
     (if m = 1 then (if is_leap y then 29 else 28)
      else if m = 3 \<or> m = 5 \<or> m = 8 \<or> m = 10 then 30 else 31)"

definition prev_day :: "date \<Rightarrow> date" where
  "prev_day d =
     (if 1 < day d then d\<lparr>day := day d - 1\<rparr>
      else if 0 < month d
        then d\<lparr>month := month d - 1, day := days_in_month (fullYear d) (month d - 1)\<rparr>
        else d\<lparr>fullYear := fullYear d - 1, month := 11, day := 31\<rparr>)"

definition next_day :: "date \<Rightarrow> date" where
  "next_day d =
     (if day d < days_in_month (fullYear d) (month d) then d\<lparr>day := day d + 1\<rparr>
      else if month d < 11 then d\<lparr>month := month d + 1, day := 1\<rparr>
      else d\<lparr>fullYear := fullYear d + 1, month := 0, day := 1\<rparr>)"

text \<open>
  \<open>sinceDate.setDate(sinceDate.getDate() - sinceDays)\<close>: the day of the month may leave
  the month on either side, and the date rolls over by whole days.
\<close>

fun back_days :: "nat \<Rightarrow> date \<Rightarrow> date" where
  "back_days 0 d = d"
| "back_days (Suc n) d = back_days n (prev_day d)"

fun forward_days :: "nat \<Rightarrow> date \<Rightarrow> date" where
  "forward_days 0 d = d"
| "forward_days (Suc n) d = forward_days n (next_day d)"

definition setDate_back :: "int \<Rightarrow> date \<Rightarrow> date" where
  "setDate_back sinceDays d =
     (if 0 \<le> sinceDays then back_days (nat sinceDays) d
      else forward_days (nat (- sinceDays)) d)"

definition months :: "string list" where
  "months = [''Jan'', ''Feb'', ''Mar'', ''Apr'', ''May'', ''Jun'',
             ''Jul'', ''Aug'', ''Sep'', ''Oct'', ''Nov'', ''Dec'']"

text \<open>A number inside a template literal: its decimal digits, without padding.\<close>

fun digits_of :: "nat \<Rightarrow> string" where
  "digits_of n =
     (if n < 10 then [char_of (48 + n)]
      else digits_of (n div 10) @ [char_of (48 + n mod 10)])"

definition number_string :: "int \<Rightarrow> string" where
  "number_string i = (if i < 0 then CHR ''-'' # digits_of (nat (- i)) else digits_of (nat i))"

definition sinceDateStr :: "date \<Rightarrow> string" where
  "sinceDateStr sinceDate =
     number_string (int (day sinceDate)) @ ''-'' @ months ! month sinceDate @ ''-'' @
     number_string (fullYear sinceDate)"

definition since_string :: "date \<Rightarrow> int \<Rightarrow> string" where
  "since_string today sinceDays = sinceDateStr (setDate_back sinceDays today)"


section \<open>Messages\<close>

text \<open>
  An address field of a message object is undefined, one string, or an array of strings.
\<close>

datatype addr_field = Absent | Text string | Items "string list"

text \<open>
  The \<open>headers\<close> property of a message: a plain object with string keys, or a \<open>Map\<close>
  as \<open>simpleParser\<close> builds it (the bounce detector reads it with \<open>headers.get\<close>).
  Either way the entries are pairs of a header name and its value.
\<close>

type_synonym header_entries = "(string \<times> string) list"

datatype headers = PlainObject header_entries | HeaderMap header_entries

text \<open>
  \<open>headers[key]\<close>, the property access the classifier uses: on a plain object the value
  stored under the key; on a \<open>Map\<close> the entries are no properties, so the access is
  \<open>undefined\<close> for every header name.
\<close>

definition header_prop :: "headers \<Rightarrow> string \<Rightarrow> string option" where
  "header_prop h key = (case h of PlainObject kv \<Rightarrow> map_of kv key | HeaderMap kv \<Rightarrow> None)"

text \<open>\<open>headers.get(key)\<close>, the lookup of a \<open>Map\<close>.\<close>

definition header_get :: "headers \<Rightarrow> string \<Rightarrow> string option" where
  "header_get h key = (case h of HeaderMap kv \<Rightarrow> map_of kv key | PlainObject kv \<Rightarrow> None)"

text \<open>Instants (\<open>Date\<close> values and ISO time stamps) are milliseconds since the epoch.\<close>

type_synonym instant = nat

text \<open>
  The message object the pipeline passes around. The IMAP client fills \<open>uid\<close>,
  \<open>messageId\<close>, \<open>subject\<close>, \<open>from\<close>, \<open>to\<close>, \<open>body\<close>, \<open>headers\<close> and
  \<open>receivedDate\<close>; the processor also reads the remaining properties, which are
  undefined on a message that comes from this client.
\<close>

record message =
  m_uid :: nat
  m_messageId :: "string option"
  m_subject :: string
  m_from :: string
  m_to :: addr_field
  m_cc :: addr_field
  m_bcc :: addr_field
  m_references :: addr_field
  m_inReplyTo :: "string option"
  m_body :: string
  m_headers :: headers
  m_receivedDate :: instant
  m_receivedAt :: "instant option"
  m_sentAt :: "instant option"
  m_attachments :: "nat option"
  m_size :: "nat option"

text \<open>\<open>a || b\<close> on strings that may be undefined: the empty string is falsy.\<close>

definition truthy :: "string option \<Rightarrow> bool" where
  "truthy v = (case v of Some t \<Rightarrow> t \<noteq> [] | None \<Rightarrow> False)"

definition or_string :: "string option \<Rightarrow> string \<Rightarrow> string" where
  "or_string v d = (case v of Some t \<Rightarrow> (if t \<noteq> [] then t else d) | None \<Rightarrow> d)"

definition or_option :: "string option \<Rightarrow> string option \<Rightarrow> string option" where
  "or_option v w = (if truthy v then v else w)"

section \<open>IMAP client: the fetch loop\<close>

text \<open>
  What \<open>simpleParser\<close> resolves with, as far as the client reads it; \<open>p_headers\<close> are
  the entries of its \<open>headers\<close> \<open>Map\<close>, keyed by the lower-case header name.
\<close>

record parsed_mail =
  p_messageId :: "string option"
  p_subject :: "string option"
  p_from_text :: "string option"
  p_to_text :: "string option"
  p_text :: "string option"
  p_html :: "string option"
  p_headers :: header_entries
  p_date :: "instant option"

text \<open>
  One element of the stream \<open>client.fetch\<close> yields: its UID, the message id of the
  envelope, and the outcome of parsing its source (\<open>None\<close> when \<open>simpleParser\<close> rejects).
\<close>

record imap_item =
  i_uid :: nat
  i_envelope_messageId :: "string option"
  i_parsed :: "parsed_mail option"

datatype stream_end = EndOfStream | StreamError

datatype error =
    ImapConnectError | ImapFetchError | DecryptError
  | StoreRejected | StoreThrown

definition make_message :: "instant \<Rightarrow> imap_item \<Rightarrow> parsed_mail \<Rightarrow> message" where
  "make_message now item parsed =
     \<lparr> m_uid = i_uid item,
       m_messageId = or_option (p_messageId parsed) (i_envelope_messageId item),
       m_subject = or_string (p_subject parsed) [],
       m_from = or_string (p_from_text parsed) [],
       m_to = Text (or_string (p_to_text parsed) []),
       m_cc = Absent, m_bcc = Absent, m_references = Absent, m_inReplyTo = None,
       m_body = or_string (p_text parsed) (or_string (p_html parsed) []),
       m_headers = HeaderMap (p_headers parsed),
       m_receivedDate = (case p_date parsed of Some d \<Rightarrow> d | None \<Rightarrow> now),
       m_receivedAt = None, m_sentAt = None, m_attachments = None, m_size = None \<rparr>"

text \<open>
  The \<open>for await\<close> loop of \<open>fetchNewMessages\<close>. The batch limit is tested when the
  next element has arrived; a message whose source does not parse is logged and skipped
  without counting; an error of the stream itself leaves the function as an exception.
\<close>

fun fetch_loop ::
  "int \<Rightarrow> instant \<Rightarrow> imap_item list \<Rightarrow> stream_end \<Rightarrow> message list \<Rightarrow> nat \<Rightarrow> error + message list"
where
  "fetch_loop batchSize now [] ending messages fetchCount =
     (case ending of EndOfStream \<Rightarrow> Inr messages | StreamError \<Rightarrow> Inl ImapFetchError)"
| "fetch_loop batchSize now (item # rest) ending messages fetchCount =
     (if batchSize \<le> int fetchCount then Inr messages
      else case i_parsed item of
             Some parsed \<Rightarrow>
               fetch_loop batchSize now rest ending
                 (messages @ [make_message now item parsed]) (fetchCount + 1)
           | None \<Rightarrow> fetch_loop batchSize now rest ending messages fetchCount)"

text \<open>
  \<open>parseInt(process.env.EMAIL_BATCH_SIZE) || 100\<close>, the default of the \<open>batchSize\<close>
  option: \<open>None\<close> stands for an unset or non-numeric variable (\<open>NaN\<close>).
\<close>

definition env_batchSize :: "int option \<Rightarrow> int" where
  "env_batchSize v = (case v of Some n \<Rightarrow> (if n = 0 then 100 else n) | None \<Rightarrow> 100)"

text \<open>
  Once the client is connected and INBOX is open: the messages the server streams for
  the search criteria, cut to the batch.
\<close>

definition fetchNewMessages ::
  "int option \<Rightarrow> int option \<Rightarrow> instant \<Rightarrow> imap_item list \<Rightarrow> stream_end \<Rightarrow> error + message list"
where
  "fetchNewMessages batchSize_option env_var now stream ending =
     fetch_loop (case batchSize_option of Some b \<Rightarrow> b | None \<Rightarrow> env_batchSize env_var)
       now stream ending [] 0"

definition parse_failures :: "imap_item list \<Rightarrow> nat" where
  "parse_failures stream = length (filter (\<lambda>item. i_parsed item = None) stream)"

section \<open>Classifier\<close>

text \<open>
  The patterns of the classifier, all used with \<open>test\<close> and the \<open>i\<close> flag: literals,
  \<open>\d+\<close>, \<open>.*\<close>, sequence, alternative and the optional \<open>?\<close>.
\<close>

datatype rx = Lit string | Digits | AnyStar | Cat rx rx | Alt rx rx | Opt rx

definition is_line_terminator :: "char \<Rightarrow> bool" where
  "is_line_terminator c = (let n = (of_char c :: nat) in n = 10 \<or> n = 13)"

text \<open>
  The inputs left after a greedy repetition of one character class, the longest
  repetition first, as a backtracking matcher tries them.
\<close>

fun many_rests :: "(char \<Rightarrow> bool) \<Rightarrow> string \<Rightarrow> string list" where
  "many_rests ok [] = [[]]"
| "many_rests ok (c # cs) = (if ok c then many_rests ok cs else []) @ [c # cs]"

fun rx_rests :: "rx \<Rightarrow> string \<Rightarrow> string list" where
  "rx_rests (Lit p) s = (case strip_ci p s of Some r \<Rightarrow> [r] | None \<Rightarrow> [])"
| "rx_rests Digits s =
     (case s of [] \<Rightarrow> [] | c # cs \<Rightarrow> if is_digit c then many_rests is_digit cs else [])"
| "rx_rests AnyStar s = many_rests (\<lambda>c. \<not> is_line_terminator c) s"
| "rx_rests (Cat a b) s = concat (map (rx_rests b) (rx_rests a s))"
| "rx_rests (Alt a b) s = rx_rests a s @ rx_rests b s"
| "rx_rests (Opt a) s = rx_rests a s @ [s]"

text \<open>\<open>pattern.test(s)\<close> for a pattern without anchors: a match starts somewhere.\<close>

fun rx_test :: "rx \<Rightarrow> string \<Rightarrow> bool" where
  "rx_test r [] = (rx_rests r [] \<noteq> [])"
| "rx_test r (c # cs) = (rx_rests r (c # cs) \<noteq> [] \<or> rx_test r cs)"

fun seq :: "rx list \<Rightarrow> rx" where
  "seq [] = Lit []"
| "seq [r] = r"
| "seq (r # rs) = Cat r (seq rs)"

fun alts :: "string list \<Rightarrow> rx" where
  "alts [] = Lit []"
| "alts [p] = Lit p"
| "alts (p # ps) = Alt (Lit p) (alts ps)"

text \<open>\<open>String.prototype.includes\<close>.\<close>

fun str_includes :: "string \<Rightarrow> string \<Rightarrow> bool" where
  "str_includes [] p = (p = [])"
| "str_includes (c # cs) p = (take (length p) (c # cs) = p \<or> str_includes cs p)"

definition transactional_from :: "rx list" where
  "transactional_from =
     [Lit ''noreply@'', Lit ''no-reply@'',
      seq [Lit ''notification'', Opt (Lit ''s''), Lit ''@''],
      Lit ''notify@'', Lit ''support@'', Lit ''security@'', Lit ''billing@'',
      seq [Lit ''invoice'', Opt (Lit ''s''), Lit ''@''],
      seq [Lit ''receipt'', Opt (Lit ''s''), Lit ''@''],
      seq [Lit ''order'', Opt (Lit ''s''), Lit ''@''],
      seq [Lit ''account'', Opt (Lit ''s''), Lit ''@''],
      Lit ''team@'']"

definition transactional_subject :: "rx list" where
  "transactional_subject =
     [Lit ''password reset'', Lit ''reset your password'', Lit ''verify your email'',
      Lit ''confirm your email'', Lit ''email verification'', Lit ''order confirmation'',
      seq [Lit ''order #'', Digits],
      Lit ''receipt'', Lit ''invoice'', Lit ''payment received'', Lit ''subscription'',
      Lit ''welcome to'', Lit ''account created'', Lit ''security alert'',
      Lit ''suspicious activity'']"

definition notification_from :: "rx list" where
  "notification_from =
     [seq [Lit ''notification'', Opt (Lit ''s''), Lit ''@''],
      seq [Lit ''alert'', Opt (Lit ''s''), Lit ''@''],
      seq [Lit ''update'', Opt (Lit ''s''), Lit ''@''],
      Lit ''activity@'', Lit ''digest@'']"

definition notification_subject :: "rx list" where
  "notification_subject =
     [Lit ''activity on'',
      seq [Lit ''you have '', Alt Digits (Lit ''a''), Lit '' new''],
      seq [Lit ''new '', alts [''comment'', ''reply'', ''message'', ''mention'']],
      Lit ''reminder:'', Lit ''upcoming'',
      seq [alts [''daily'', ''weekly'', ''monthly''], Lit '' '',
           alts [''summary'', ''digest'', ''report'']],
      seq [Lit ''someone'', AnyStar, alts [''liked'', ''commented'', ''shared'']],
      seq [Digits, Lit '' new notification'']]"

definition marketing_subject :: "rx list" where
  "marketing_subject =
     [Lit ''sale'', seq [Digits, Lit ''% off''], Lit ''discount'', Lit ''limited time'',
      Lit ''exclusive offer'', Lit ''deal of the day'', Lit ''free shipping'', Lit ''buy now'',
      Lit ''shop now'', Lit (''don'' @ [CHR 0x27] @ ''t miss''), Lit ''last chance'',
      Lit ''special offer'', Lit ''promotion'']"

definition newsletter_subject :: "rx list" where
  "newsletter_subject =
     [Lit ''newsletter'', Lit ''weekly roundup'', Lit ''this week in'',
      seq [Lit ''edition '', Opt (Lit ''#''), Digits],
      seq [Lit ''volume '', Digits]]"

text \<open>\<open>patterns.some((pattern) => pattern.test(s))\<close>.\<close>

definition some_test :: "rx list \<Rightarrow> string \<Rightarrow> bool" where
  "some_test patterns s = list_ex (\<lambda>pattern. rx_test pattern s) patterns"

text \<open>\<open>headers[k1] || headers[k2]\<close>, read as a condition.\<close>

definition header_set :: "headers \<Rightarrow> string \<Rightarrow> string \<Rightarrow> bool" where
  "header_set h k1 k2 = (truthy (header_prop h k1) \<or> truthy (header_prop h k2))"

datatype category =
  BOUNCE | TRANSACTIONAL | NOTIFICATION | NEWSLETTER | MARKETING | HUMAN | UNKNOWN

record classification =
  category :: category
  confidence :: real

definition isBounce :: "message \<Rightarrow> bool" where
  "isBounce email =
     (let from = toLowerCase (m_from email); subject = toLowerCase (m_subject email)
      in str_includes from ''mailer-daemon'' \<or> str_includes from ''postmaster'' \<or>
         str_includes from ''mail-daemon'' \<or> str_includes subject ''undelivered'' \<or>
         str_includes subject ''failure notice'' \<or> str_includes subject ''returned mail'' \<or>
         str_includes subject ''delivery status notification'' \<or>
         str_includes subject ''mail delivery failed'' \<or> str_includes subject ''undeliverable'' \<or>
         str_includes subject ''bounce'' \<or> str_includes subject ''permanent error'' \<or>
         str_includes subject ''delivery failure'')"

definition isTransactional :: "message \<Rightarrow> bool" where
  "isTransactional email =
     (let from = toLowerCase (m_from email); subject = toLowerCase (m_subject email);
          fromMatch = some_test transactional_from from;
          subjectMatch = some_test transactional_subject subject;
          hasListUnsubscribe =
            header_set (m_headers email) ''list-unsubscribe'' ''List-Unsubscribe''
      in (fromMatch \<or> subjectMatch) \<and> \<not> hasListUnsubscribe)"

definition isNotification :: "message \<Rightarrow> bool" where
  "isNotification email =
     (let from = toLowerCase (m_from email); subject = toLowerCase (m_subject email);
          fromMatch = some_test notification_from from;
          subjectMatch = some_test notification_subject subject
      in fromMatch \<or> subjectMatch)"

text \<open>\<open>(body.match(/https?:\/\//g) || []).length\<close>: the matches cannot overlap.\<close>

fun linkCount :: "string \<Rightarrow> nat" where
  "linkCount [] = 0"
| "linkCount (c # cs) =
     (if take 7 (c # cs) = ''http://'' \<or> take 8 (c # cs) = ''https://''
      then Suc (linkCount cs) else linkCount cs)"

definition isMarketing :: "message \<Rightarrow> bool" where
  "isMarketing email =
     (let subject = toLowerCase (m_subject email); body = toLowerCase (m_body email);
          hasListUnsubscribe =
            header_set (m_headers email) ''list-unsubscribe'' ''List-Unsubscribe'';
          hasManyLinks = (5 < linkCount body);
          subjectMatch = some_test marketing_subject subject
      in hasListUnsubscribe \<or> (subjectMatch \<and> hasManyLinks))"

definition isNewsletter :: "message \<Rightarrow> bool" where
  "isNewsletter email =
     (let subject = toLowerCase (m_subject email);
          hasListUnsubscribe =
            header_set (m_headers email) ''list-unsubscribe'' ''List-Unsubscribe'';
          hasListPost = header_set (m_headers email) ''list-post'' ''List-Post'';
          subjectMatch = some_test newsletter_subject subject
      in (hasListUnsubscribe \<and> hasListPost) \<or> subjectMatch)"

definition automatedSenders :: "string list" where
  "automatedSenders =
     [''noreply'', ''no-reply'', ''notifications'', ''alert'', ''updates'', ''newsletter'',
      ''marketing'', ''info'', ''support'']"

text \<open>The recipients as \<open>isHuman\<close> counts them: an array as it is, a non-empty string as one.\<close>

definition toArray :: "addr_field \<Rightarrow> string list" where
  "toArray f =
     (case f of Items xs \<Rightarrow> xs | Text t \<Rightarrow> (if t \<noteq> [] then [t] else []) | Absent \<Rightarrow> [])"

definition isHuman :: "message \<Rightarrow> bool" where
  "isHuman email =
     (let from = toLowerCase (m_from email);
          to = map toLowerCase (toArray (m_to email));
          isAutomated = list_ex (\<lambda>sender. str_includes from sender) automatedSenders;
          replyTo = or_string (or_option (header_prop (m_headers email) ''reply-to'')
                                 (header_prop (m_headers email) ''Reply-To'')) [];
          hasPersonalReplyTo =
            (replyTo \<noteq> [] \<and> \<not> list_ex (\<lambda>sender. str_includes replyTo sender) automatedSenders);
          isSingleRecipient = (length to = 1);
          hasListHeaders =
            (header_set (m_headers email) ''list-unsubscribe'' ''List-Unsubscribe'' \<or>
             header_set (m_headers email) ''list-id'' ''List-Id'')
      in \<not> isAutomated \<and> (hasPersonalReplyTo \<or> isSingleRecipient) \<and> \<not> hasListHeaders)"

definition classify :: "message \<Rightarrow> classification" where
  "classify email =
     (if isBounce email then \<lparr>category = BOUNCE, confidence = 1.0\<rparr>
      else if isTransactional email then \<lparr>category = TRANSACTIONAL, confidence = 0.9\<rparr>
      else if isNotification email then \<lparr>category = NOTIFICATION, confidence = 0.85\<rparr>
      else if isNewsletter email then \<lparr>category = NEWSLETTER, confidence = 0.75\<rparr>
      else if isMarketing email then \<lparr>category = MARKETING, confidence = 0.8\<rparr>
      else if isHuman email then \<lparr>category = HUMAN, confidence = 0.7\<rparr>
      else \<lparr>category = UNKNOWN, confidence = 0.0\<rparr>)"

section \<open>Store\<close>

text \<open>
  The tables the worker reads and writes. Primary keys are generated by the database
  (\<open>gen_random_uuid()\<close>); the model draws them from a counter kept in the store.
\<close>

type_synonym id = nat

datatype mailbox_status = ACTIVE | ERROR | DISABLED

record mailbox =
  mb_id :: id
  mb_user_id :: id
  mb_imap_host :: string
  mb_status :: mailbox_status
  mb_last_synced_uid :: nat
  mb_last_synced_at :: "instant option"
  mb_last_error :: "error option"

record email_row =
  e_id :: id
  e_user_id :: id
  e_mailbox_id :: id
  e_uid :: nat
  e_message_id :: string
  e_subject :: string
  e_from_address :: string
  e_from_name :: string
  e_to_addresses :: "string list"
  e_cc_addresses :: "string list"
  e_bcc_addresses :: "string list"
  e_category :: category
  e_category_confidence :: real
  e_thread_id :: "id option"
  e_in_reply_to :: "string option"
  e_reference_ids :: "string list"
  e_body_preview :: string
  e_has_attachments :: bool
  e_is_read :: bool
  e_is_starred :: bool
  e_is_archived :: bool
  e_received_at :: instant
  e_sent_at :: instant
  e_size_bytes :: nat
  e_headers :: headers

record thread_row =
  t_id :: id
  t_user_id :: id
  t_mailbox_id :: id
  t_subject :: string
  t_normalized_subject :: string
  t_participants :: "string list"
  t_first_message_at :: instant
  t_last_message_at :: instant
  t_message_count :: nat
  t_is_unread :: bool

datatype bounce_type = HARD | SOFT | UNKNOWN_TYPE

record bounce_row =
  b_id :: id
  b_user_id :: id
  b_mailbox_id :: id
  b_email :: string
  b_bounce_type :: bounce_type
  b_error_code :: string
  b_reason :: string
  b_failure_count :: nat
  b_first_failed_at :: instant
  b_last_failed_at :: instant

record event_row =
  ev_id :: id
  ev_bounce_id :: id
  ev_user_id :: id
  ev_message_uid :: nat
  ev_error_code :: string
  ev_diagnostic :: string
  ev_occurred_at :: instant

record store =
  mailboxes :: "mailbox list"
  emails :: "email_row list"
  email_threads :: "thread_row list"
  email_bounces :: "bounce_row list"
  email_bounce_events :: "event_row list"
  next_id :: id

text \<open>
  Every call to the store is one of these sites; the message sites carry the UID of the
  message being processed. A call answers, resolves with an \<open>error\<close> object and no
  data, or throws.
\<close>

datatype site =
    SelectMailbox | UpdateMailbox | UpdateMailboxError
  | SelectEmail nat | SelectParent nat | SelectReferenced nat | SelectSimilarThread nat
  | InsertThread nat | InsertEmail nat | SelectThreadEmails nat | UpdateThread nat
  | SelectBounce nat | RpcIncrementFailure nat | UpdateBounce nat | InsertBounce nat
  | InsertBounceEvent nat

datatype outcome = Works | ReturnsError | Throws

text \<open>What the IMAP server does in one cycle.\<close>

datatype imap_server =
    Unreachable
  | InboxUnavailable
  | Inbox "imap_item list" stream_end

text \<open>
  The surroundings of one cycle: the behaviour of each store call, the clock (one
  instant stands for every \<open>new Date()\<close> of the cycle), the decryption of the password,
  the IMAP server and the environment variable of the batch size.
\<close>

record env =
  fault :: "site \<Rightarrow> outcome"
  clock :: instant
  decrypt_fails :: bool
  imap :: imap_server
  EMAIL_BATCH_SIZE :: "int option"

text \<open>\<open>.maybeSingle()\<close>: no row is no data; more than one row is an error, hence no data.\<close>

definition maybeSingle :: "'a list \<Rightarrow> 'a option" where
  "maybeSingle rows = (case rows of [r] \<Rightarrow> Some r | _ \<Rightarrow> None)"

text \<open>\<open>.limit(1).maybeSingle()\<close>: the first row that qualifies, in table order.\<close>

definition firstRow :: "'a list \<Rightarrow> 'a option" where
  "firstRow rows = (case rows of [] \<Rightarrow> None | r # _ \<Rightarrow> Some r)"

section \<open>Thread builder\<close>

text \<open>\<open>/<(.+?)>/\<close> tried right behind a \<open><\<close>: the shortest non-empty run without a
  line terminator that is followed by \<open>>\<close>.\<close>

definition angle_group :: "string \<Rightarrow> string option" where
  "angle_group r =
     (case r of
        [] \<Rightarrow> None
      | c # cs \<Rightarrow>
          if is_line_terminator c then None
          else (case dropWhile (\<lambda>x. x \<noteq> CHR ''>'' \<and> \<not> is_line_terminator x) cs of
                  [] \<Rightarrow> None
                | d # _ \<Rightarrow>
                    if d = CHR ''>''
                    then Some (c # takeWhile (\<lambda>x. x \<noteq> CHR ''>'' \<and> \<not> is_line_terminator x) cs)
                    else None))"

fun find_angle :: "string \<Rightarrow> string option" where
  "find_angle [] = None"
| "find_angle (c # cs) =
     (if c = CHR ''<''
      then (case angle_group cs of Some g \<Rightarrow> Some g | None \<Rightarrow> find_angle cs)
      else find_angle cs)"

definition extractEmailAddress :: "string \<Rightarrow> string" where
  "extractEmailAddress fullAddress =
     (if fullAddress = [] then []
      else case find_angle fullAddress of
             Some g \<Rightarrow> toLowerCase g
           | None \<Rightarrow> toLowerCase (trim fullAddress))"

text \<open>The elements of a \<open>Set\<close> in insertion order.\<close>

definition uniq :: "string list \<Rightarrow> string list" where
  "uniq xs = rev (remdups (rev xs))"

text \<open>The object \<open>processMessage\<close> hands to the thread builder.\<close>

record thread_email =
  te_subject :: string
  te_from :: string
  te_to :: "string list"
  te_cc :: "string list"
  te_inReplyTo :: "string option"
  te_references :: "string list"
  te_receivedAt :: instant

definition extractParticipants :: "thread_email \<Rightarrow> string list" where
  "extractParticipants email =
     filter (\<lambda>a. a \<noteq> [])
       (uniq ((if te_from email \<noteq> [] then [extractEmailAddress (te_from email)] else []) @
              map extractEmailAddress (te_to email) @
              map extractEmailAddress (te_cc email)))"

definition seven_days :: nat where
  "seven_days = 7 * 24 * 60 * 60 * 1000"

definition new_thread :: "env \<Rightarrow> id \<Rightarrow> id \<Rightarrow> thread_email \<Rightarrow> id \<Rightarrow> thread_row" where
  "new_thread ev mailboxId userId email i =
     \<lparr> t_id = i, t_user_id = userId, t_mailbox_id = mailboxId,
       t_subject = (if te_subject email \<noteq> [] then te_subject email else ''(No Subject)''),
       t_normalized_subject = normalizeSubject (te_subject email),
       t_participants = extractParticipants email,
       t_first_message_at = te_receivedAt email,
       t_last_message_at = te_receivedAt email,
       t_message_count = 1, t_is_unread = True \<rparr>"

text \<open>Step 1 of \<open>findOrCreateThread\<close>: the parent named by In-Reply-To.\<close>

definition thread_by_parent :: "env \<Rightarrow> nat \<Rightarrow> id \<Rightarrow> thread_email \<Rightarrow> store \<Rightarrow> error + id option" where
  "thread_by_parent ev u mailboxId email s =
     (if truthy (te_inReplyTo email)
      then (case fault ev (SelectParent u) of
              Throws \<Rightarrow> Inl StoreThrown
            | ReturnsError \<Rightarrow> Inr None
            | Works \<Rightarrow>
                (case maybeSingle (filter (\<lambda>e. e_mailbox_id e = mailboxId \<and>
                                              Some (e_message_id e) = te_inReplyTo email)
                                     (emails s)) of
                   Some parent \<Rightarrow> Inr (e_thread_id parent)
                 | None \<Rightarrow> Inr None))
      else Inr None)"

text \<open>Step 2: any stored message named by References.\<close>

definition thread_by_references :: "env \<Rightarrow> nat \<Rightarrow> id \<Rightarrow> thread_email \<Rightarrow> store \<Rightarrow> error + id option" where
  "thread_by_references ev u mailboxId email s =
     (if te_references email \<noteq> []
      then (case fault ev (SelectReferenced u) of
              Throws \<Rightarrow> Inl StoreThrown
            | ReturnsError \<Rightarrow> Inr None
            | Works \<Rightarrow>
                (case firstRow (filter (\<lambda>e. e_mailbox_id e = mailboxId \<and>
                                           e_message_id e \<in> set (te_references email))
                                  (emails s)) of
                   Some referenced \<Rightarrow> Inr (e_thread_id referenced)
                 | None \<Rightarrow> Inr None))
      else Inr None)"

text \<open>Step 3: a thread of the last seven days with the same normalised subject.\<close>

definition thread_by_subject :: "env \<Rightarrow> nat \<Rightarrow> id \<Rightarrow> thread_email \<Rightarrow> store \<Rightarrow> error + id option" where
  "thread_by_subject ev u mailboxId email s =
     (let normalizedSubject = normalizeSubject (te_subject email)
      in if 5 < length normalizedSubject
         then (case fault ev (SelectSimilarThread u) of
                 Throws \<Rightarrow> Inl StoreThrown
               | ReturnsError \<Rightarrow> Inr None
               | Works \<Rightarrow>
                   (case firstRow (filter (\<lambda>t. t_mailbox_id t = mailboxId \<and>
                                              t_normalized_subject t = normalizedSubject \<and>
                                              clock ev \<le> t_last_message_at t + seven_days)
                                     (email_threads s)) of
                      Some similarThread \<Rightarrow> Inr (Some (t_id similarThread))
                    | None \<Rightarrow> Inr None))
         else Inr None)"

text \<open>Step 4: a new thread; an error of the insert is thrown on.\<close>

definition create_thread :: "env \<Rightarrow> nat \<Rightarrow> id \<Rightarrow> id \<Rightarrow> thread_email \<Rightarrow> store \<Rightarrow> store \<times> (error + id)" where
  "create_thread ev u mailboxId userId email s =
     (case fault ev (InsertThread u) of
        Throws \<Rightarrow> (s, Inl StoreThrown)
      | ReturnsError \<Rightarrow> (s, Inl StoreRejected)
      | Works \<Rightarrow>
          (s\<lparr> email_threads := email_threads s @ [new_thread ev mailboxId userId email (next_id s)],
              next_id := next_id s + 1 \<rparr>,
           Inr (next_id s)))"

definition findOrCreateThread ::
  "env \<Rightarrow> nat \<Rightarrow> id \<Rightarrow> id \<Rightarrow> thread_email \<Rightarrow> store \<Rightarrow> store \<times> (error + id)"
where
  "findOrCreateThread ev u mailboxId userId email s =
     (case thread_by_parent ev u mailboxId email s of
        Inl e \<Rightarrow> (s, Inl e)
      | Inr (Some threadId) \<Rightarrow> (s, Inr threadId)
      | Inr None \<Rightarrow>
          (case thread_by_references ev u mailboxId email s of
             Inl e \<Rightarrow> (s, Inl e)
           | Inr (Some threadId) \<Rightarrow> (s, Inr threadId)
           | Inr None \<Rightarrow>
               (case thread_by_subject ev u mailboxId email s of
                  Inl e \<Rightarrow> (s, Inl e)
                | Inr (Some threadId) \<Rightarrow> (s, Inr threadId)
                | Inr None \<Rightarrow> create_thread ev u mailboxId userId email s)))"

text \<open>
  \<open>updateThreadStats\<close>: the statistics are recomputed from the messages of the thread,
  newest first. Every failure is logged and swallowed.
\<close>

definition updateThreadStats :: "env \<Rightarrow> nat \<Rightarrow> id \<Rightarrow> store \<Rightarrow> store" where
  "updateThreadStats ev u threadId s =
     (case fault ev (SelectThreadEmails u) of
        Throws \<Rightarrow> s
      | ReturnsError \<Rightarrow> s
      | Works \<Rightarrow>
          (let messages = rev (sort_key e_received_at
                                 (filter (\<lambda>e. e_thread_id e = Some threadId) (emails s)))
           in case messages of
                [] \<Rightarrow> s
              | newest # _ \<Rightarrow>
                  (case fault ev (UpdateThread u) of
                     Throws \<Rightarrow> s
                   | ReturnsError \<Rightarrow> s
                   | Works \<Rightarrow>
                       s\<lparr> email_threads :=
                            map (\<lambda>t. if t_id t = threadId
                                      then t\<lparr> t_message_count := length messages,
                                              t_last_message_at := e_received_at newest,
                                              t_is_unread := list_ex (\<lambda>m. \<not> e_is_read m) messages,
                                              t_participants :=
                                                filter (\<lambda>a. a \<noteq> [])
                                                  (uniq (map (\<lambda>m. extractEmailAddress (e_from_address m))
                                                           messages)) \<rparr>
                                      else t)
                              (email_threads s) \<rparr>)))"

section \<open>Bounce detector: the parsed bounce\<close>

text \<open>
  \<open>classifyBounceType\<close>. Without a code the body decides, by
  \<open>/user.*not.*found|mailbox.*not.*found|account.*disabled/i\<close> and
  \<open>/mailbox.*full|quota.*exceeded|temporarily/i\<close>.
\<close>

definition hard_body :: rx where
  "hard_body =
     Alt (seq [Lit ''user'', AnyStar, Lit ''not'', AnyStar, Lit ''found''])
       (Alt (seq [Lit ''mailbox'', AnyStar, Lit ''not'', AnyStar, Lit ''found''])
            (seq [Lit ''account'', AnyStar, Lit ''disabled'']))"

definition soft_body :: rx where
  "soft_body =
     Alt (seq [Lit ''mailbox'', AnyStar, Lit ''full''])
       (Alt (seq [Lit ''quota'', AnyStar, Lit ''exceeded'']) (Lit ''temporarily''))"

definition hardBounceCodes :: "string list" where
  "hardBounceCodes = [''550'', ''551'', ''552'', ''553'', ''554'']"

definition softBounceCodes :: "string list" where
  "softBounceCodes = [''450'', ''451'', ''452'', ''453'']"

definition classifyBounceType :: "string option \<Rightarrow> string \<Rightarrow> bounce_type" where
  "classifyBounceType errorCode body =
     (case errorCode of
        None \<Rightarrow>
          (if rx_test hard_body body then HARD
           else if rx_test soft_body body then SOFT
           else UNKNOWN_TYPE)
      | Some code \<Rightarrow>
          (if code \<in> set hardBounceCodes then HARD
           else if code \<in> set softBounceCodes then SOFT
           else if take 1 code = ''5'' then HARD
           else if take 1 code = ''4'' then SOFT
           else UNKNOWN_TYPE))"

text \<open>
  The extraction of the failed recipient and of the diagnostic text are parameters of
  the model: whatever the two functions return, the processor treats it alike.
\<close>

record detector =
  extractRecipientEmail :: "string \<Rightarrow> string \<Rightarrow> string option"
  extractDiagnostic :: "string \<Rightarrow> string option"

record bounce_data =
  failedRecipient :: "string option"
  errorCode :: string
  diagnostic :: string
  bounceType :: bounce_type

definition parseBounce :: "detector \<Rightarrow> message \<Rightarrow> bounce_data" where
  "parseBounce det email =
     (let body = m_body email; subject = m_subject email
      in \<lparr> failedRecipient = extractRecipientEmail det body subject,
           errorCode = parseBounce_errorCode body,
           diagnostic = or_string (extractDiagnostic det body)
                          ''No diagnostic information available'',
           bounceType = classifyBounceType (extractErrorCode body) body \<rparr>)"

section \<open>Enhanced processor\<close>

definition normalizeEmailArray :: "addr_field \<Rightarrow> string list" where
  "normalizeEmailArray v =
     (case v of Absent \<Rightarrow> [] | Items xs \<Rightarrow> xs | Text t \<Rightarrow> (if t = [] then [] else [t]))"

text \<open>\<open>/<[^>]+>/\<close> tried right behind a \<open><\<close>: what follows the closing \<open>>\<close>.\<close>

definition tag_rest :: "string \<Rightarrow> string option" where
  "tag_rest cs =
     (case dropWhile (\<lambda>x. x \<noteq> CHR ''>'') cs of
        [] \<Rightarrow> None
      | _ # rest \<Rightarrow> (if takeWhile (\<lambda>x. x \<noteq> CHR ''>'') cs = [] then None else Some rest))"

function strip_tags :: "string \<Rightarrow> string" where
  "strip_tags [] = []"
| "strip_tags (c # cs) =
     (if c = CHR ''<''
      then (case tag_rest cs of
              Some rest \<Rightarrow> CHR '' '' # strip_tags (drop (length cs - length rest) cs)
            | None \<Rightarrow> c # strip_tags cs)
      else c # strip_tags cs)"
  by pat_completeness auto
termination
  by (relation "measure length") auto

definition extractPreview :: "string \<Rightarrow> string" where
  "extractPreview body =
     (if body = [] then [] else take 300 (trim (collapse_ws (strip_tags body))))"

text \<open>
  \<open>/^(.+?)\s*<(.+?)>$/\<close>: behind the first group come white space, \<open><\<close>, a non-empty
  second group without line terminators and the final \<open>>\<close>.
\<close>

definition angle_tail :: "string \<Rightarrow> string option" where
  "angle_tail r =
     (case dropWhile is_space r of
        [] \<Rightarrow> None
      | c # t \<Rightarrow>
          if c = CHR ''<'' \<and> t \<noteq> [] \<and> last t = CHR ''>'' \<and> butlast t \<noteq> [] \<and>
             list_all (\<lambda>x. \<not> is_line_terminator x) (butlast t)
          then Some (butlast t) else None)"

text \<open>The lazy first group grows by one character until the rest fits.\<close>

fun from_match :: "string \<Rightarrow> string \<Rightarrow> (string \<times> string) option" where
  "from_match g [] = None"
| "from_match g (c # cs) =
     (if is_line_terminator c then None
      else case angle_tail cs of
             Some g2 \<Rightarrow> Some (g @ [c], g2)
           | None \<Rightarrow> from_match (g @ [c]) cs)"

definition parseFromAddress :: "string \<Rightarrow> string \<times> string" where
  "parseFromAddress from_text =
     (if from_text = [] then ([], [])
      else case from_match [] from_text of
             Some (g1, g2) \<Rightarrow>
               (toLowerCase (trim g2),
                trim (filter (\<lambda>c. c \<noteq> CHR 0x27 \<and> c \<noteq> CHR 0x22) g1))
           | None \<Rightarrow>
               (toLowerCase (trim from_text),
                takeWhile (\<lambda>c. c \<noteq> CHR ''@'') (trim from_text)))"

text \<open>
  \<open>processBounce\<close>, the body of its \<open>try\<close> block: the store afterwards and the
  exception that left the block, if one did.
\<close>

definition insert_bounce_event ::
  "env \<Rightarrow> nat \<Rightarrow> id \<Rightarrow> id \<Rightarrow> bounce_data \<Rightarrow> store \<Rightarrow> store \<times> error option"
where
  "insert_bounce_event ev u userId bounceId bounceData s =
     (case fault ev (InsertBounceEvent u) of
        Throws \<Rightarrow> (s, Some StoreThrown)
      | ReturnsError \<Rightarrow> (s, None)
      | Works \<Rightarrow>
          (s\<lparr> email_bounce_events := email_bounce_events s @
                 [\<lparr> ev_id = next_id s, ev_bounce_id = bounceId, ev_user_id = userId,
                    ev_message_uid = u, ev_error_code = errorCode bounceData,
                    ev_diagnostic = diagnostic bounceData, ev_occurred_at = clock ev \<rparr>],
              next_id := next_id s + 1 \<rparr>,
           None))"

text \<open>
  Modelled from the spec: the declaration of the table \<open>email_bounces\<close> is not among the
  sources; its unique key \<open>(user_id, mailbox_id, email)\<close> is the one the data model of
  the specification gives the bounce aggregate.
\<close>

definition bounce_key_taken :: "id \<Rightarrow> id \<Rightarrow> string \<Rightarrow> store \<Rightarrow> bool" where
  "bounce_key_taken userId mailboxId email s =
     list_ex (\<lambda>b. b_user_id b = userId \<and> b_mailbox_id b = mailboxId \<and> b_email b = email)
       (email_bounces s)"

definition processBounce_try ::
  "env \<Rightarrow> id \<Rightarrow> id \<Rightarrow> message \<Rightarrow> bounce_data \<Rightarrow> store \<Rightarrow> store \<times> error option"
where
  "processBounce_try ev mailboxId userId msg bounceData s =
     (if \<not> truthy (failedRecipient bounceData) then (s, None)
      else case fault ev (SelectBounce (m_uid msg)) of
        Throws \<Rightarrow> (s, Some StoreThrown)
      | lookup \<Rightarrow>
          (case (if lookup = ReturnsError then None
                 else maybeSingle (filter (\<lambda>b. b_user_id b = userId \<and> b_mailbox_id b = mailboxId \<and>
                                                Some (b_email b) = failedRecipient bounceData)
                                      (email_bounces s))) of
             Some existing \<Rightarrow>
               (case fault ev (RpcIncrementFailure (m_uid msg)) of
                  Throws \<Rightarrow> (s, Some StoreThrown)
                | Works \<Rightarrow>
                    insert_bounce_event ev (m_uid msg) userId (b_id existing) bounceData
                      (s\<lparr> email_bounces :=
                            map (\<lambda>b. if b_id b = b_id existing
                                      then b\<lparr> b_failure_count := b_failure_count b + 1,
                                              b_last_failed_at := clock ev \<rparr>
                                      else b)
                              (email_bounces s) \<rparr>)
                | ReturnsError \<Rightarrow>
                    (case fault ev (UpdateBounce (m_uid msg)) of
                       Throws \<Rightarrow> (s, Some StoreThrown)
                     | ReturnsError \<Rightarrow> (s, None)
                     | Works \<Rightarrow>
                         insert_bounce_event ev (m_uid msg) userId (b_id existing) bounceData
                           (s\<lparr> email_bounces :=
                                 map (\<lambda>b. if b_id b = b_id existing
                                           then b\<lparr> b_failure_count := b_failure_count existing + 1,
                                                   b_last_failed_at := clock ev \<rparr>
                                           else b)
                                   (email_bounces s) \<rparr>)))
           | None \<Rightarrow>
               (case fault ev (InsertBounce (m_uid msg)) of
                  Throws \<Rightarrow> (s, Some StoreThrown)
                | ReturnsError \<Rightarrow> (s, None)
                | Works \<Rightarrow>
                    (if bounce_key_taken userId mailboxId
                          (or_string (failedRecipient bounceData) []) s
                     then (s, None)
                     else insert_bounce_event ev (m_uid msg) userId (next_id s) bounceData
                            (s\<lparr> email_bounces := email_bounces s @
                                   [\<lparr> b_id = next_id s, b_user_id = userId,
                                      b_mailbox_id = mailboxId,
                                      b_email = or_string (failedRecipient bounceData) [],
                                      b_bounce_type = bounceType bounceData,
                                      b_error_code = errorCode bounceData,
                                      b_reason = diagnostic bounceData,
                                      b_failure_count = 1,
                                      b_first_failed_at = clock ev,
                                      b_last_failed_at = clock ev \<rparr>],
                                next_id := next_id s + 1 \<rparr>)))))"

text \<open>The \<open>catch\<close> of \<open>processBounce\<close> logs the exception and returns.\<close>

definition processBounce :: "env \<Rightarrow> id \<Rightarrow> id \<Rightarrow> message \<Rightarrow> bounce_data \<Rightarrow> store \<Rightarrow> store" where
  "processBounce ev mailboxId userId msg bounceData s =
     fst (processBounce_try ev mailboxId userId msg bounceData s)"

text \<open>The dedup guard of \<open>processMessage\<close>: the stored row of this mailbox and UID.\<close>

definition find_existing :: "env \<Rightarrow> mailbox \<Rightarrow> message \<Rightarrow> store \<Rightarrow> error + email_row option" where
  "find_existing ev mbox msg s =
     (case fault ev (SelectEmail (m_uid msg)) of
        Throws \<Rightarrow> Inl StoreThrown
      | ReturnsError \<Rightarrow> Inr None
      | Works \<Rightarrow>
          Inr (maybeSingle (filter (\<lambda>e. e_mailbox_id e = mb_id mbox \<and> e_uid e = m_uid msg)
                              (emails s))))"

text \<open>The message after its address fields have been normalised to arrays.\<close>

definition normalize_message :: "message \<Rightarrow> message" where
  "normalize_message msg =
     msg\<lparr> m_to := Items (normalizeEmailArray (m_to msg)),
          m_cc := Items (normalizeEmailArray (m_cc msg)),
          m_bcc := Items (normalizeEmailArray (m_bcc msg)),
          m_references := Items (normalizeEmailArray (m_references msg)) \<rparr>"

definition received_at :: "env \<Rightarrow> message \<Rightarrow> instant" where
  "received_at ev msg = (case m_receivedAt msg of Some t \<Rightarrow> t | None \<Rightarrow> clock ev)"

definition thread_email_of :: "env \<Rightarrow> message \<Rightarrow> thread_email" where
  "thread_email_of ev msg =
     \<lparr> te_subject = m_subject msg, te_from = m_from msg,
       te_to = normalizeEmailArray (m_to msg), te_cc = normalizeEmailArray (m_cc msg),
       te_inReplyTo = m_inReplyTo msg,
       te_references = normalizeEmailArray (m_references msg),
       te_receivedAt = received_at ev msg \<rparr>"

text \<open>\<open>message.messageId || `${message.uid}@${mailbox.imap_host}`\<close>.\<close>

definition message_id_of :: "mailbox \<Rightarrow> message \<Rightarrow> string" where
  "message_id_of mbox msg =
     or_string (m_messageId msg) (number_string (int (m_uid msg)) @ ''@'' @ mb_imap_host mbox)"

definition new_email ::
  "env \<Rightarrow> mailbox \<Rightarrow> message \<Rightarrow> classification \<Rightarrow> id \<Rightarrow> id \<Rightarrow> email_row"
where
  "new_email ev mbox msg cls threadId i =
     \<lparr> e_id = i, e_user_id = mb_user_id mbox, e_mailbox_id = mb_id mbox, e_uid = m_uid msg,
       e_message_id = message_id_of mbox msg,
       e_subject = (if m_subject msg \<noteq> [] then m_subject msg else ''(No Subject)''),
       e_from_address = fst (parseFromAddress (m_from msg)),
       e_from_name = snd (parseFromAddress (m_from msg)),
       e_to_addresses = normalizeEmailArray (m_to msg),
       e_cc_addresses = normalizeEmailArray (m_cc msg),
       e_bcc_addresses = normalizeEmailArray (m_bcc msg),
       e_category = category cls, e_category_confidence = confidence cls,
       e_thread_id = Some threadId, e_in_reply_to = m_inReplyTo msg,
       e_reference_ids = normalizeEmailArray (m_references msg),
       e_body_preview = extractPreview (m_body msg),
       e_has_attachments = (case m_attachments msg of Some n \<Rightarrow> 0 < n | None \<Rightarrow> False),
       e_is_read = False, e_is_starred = False, e_is_archived = False,
       e_received_at = received_at ev msg,
       e_sent_at = (case m_sentAt msg of Some t \<Rightarrow> t | None \<Rightarrow> received_at ev msg),
       e_size_bytes = (case m_size msg of Some n \<Rightarrow> n | None \<Rightarrow> 0),
       e_headers = m_headers msg \<rparr>"

text \<open>
  The insert into \<open>emails\<close>. The table is unique on \<open>(mailbox_id, uid)\<close> and on
  \<open>(mailbox_id, message_id)\<close>; the processor throws the error of a rejected insert.
\<close>

definition email_key_taken :: "email_row \<Rightarrow> store \<Rightarrow> bool" where
  "email_key_taken row s =
     list_ex (\<lambda>e. e_mailbox_id e = e_mailbox_id row \<and>
                   (e_uid e = e_uid row \<or> e_message_id e = e_message_id row))
       (emails s)"

definition insert_email :: "env \<Rightarrow> email_row \<Rightarrow> store \<Rightarrow> error + store" where
  "insert_email ev row s =
     (case fault ev (InsertEmail (e_uid row)) of
        Throws \<Rightarrow> Inl StoreThrown
      | ReturnsError \<Rightarrow> Inl StoreRejected
      | Works \<Rightarrow>
          (if email_key_taken row s then Inl StoreRejected
           else Inr (s\<lparr> emails := emails s @ [row], next_id := next_id s + 1 \<rparr>)))"

text \<open>Step 7 of \<open>processMessage\<close>: the bounce branch.\<close>

definition bounce_branch ::
  "env \<Rightarrow> detector \<Rightarrow> mailbox \<Rightarrow> message \<Rightarrow> classification \<Rightarrow> store \<Rightarrow> store"
where
  "bounce_branch ev det mbox msg cls s =
     (if category cls = BOUNCE
      then (let bounceData = parseBounce det msg
            in if truthy (failedRecipient bounceData)
               then processBounce ev (mb_id mbox) (mb_user_id mbox) msg bounceData s
               else s)
      else s)"

text \<open>
  \<open>processMessage\<close>: the store afterwards and the exception it throws, if any. Its
  \<open>catch\<close> logs and rethrows.
\<close>

definition processMessage ::
  "env \<Rightarrow> detector \<Rightarrow> mailbox \<Rightarrow> message \<Rightarrow> store \<Rightarrow> store \<times> error option"
where
  "processMessage ev det mbox message s =
     (case find_existing ev mbox message s of
        Inl e \<Rightarrow> (s, Some e)
      | Inr (Some existing) \<Rightarrow> (s, None)
      | Inr None \<Rightarrow>
          (let msg = normalize_message message;
               classification = classify msg
           in case findOrCreateThread ev (m_uid msg) (mb_id mbox) (mb_user_id mbox)
                     (thread_email_of ev msg) s of
                (s1, Inl e) \<Rightarrow> (s1, Some e)
              | (s1, Inr threadId) \<Rightarrow>
                  (case insert_email ev
                          (new_email ev mbox msg classification threadId (next_id s1)) s1 of
                     Inl e \<Rightarrow> (s1, Some e)
                   | Inr s2 \<Rightarrow>
                       (bounce_branch ev det mbox msg classification
                          (updateThreadStats ev (m_uid msg) threadId s2),
                        None))))"

text \<open>
  The loop of \<open>processMailbox\<close> over the fetched messages. \<open>maxUid\<close> is raised before the
  message is processed; an exception of \<open>processMessage\<close> is logged and the loop goes on.
\<close>

fun process_messages ::
  "env \<Rightarrow> detector \<Rightarrow> mailbox \<Rightarrow> message list \<Rightarrow> nat \<Rightarrow> store \<Rightarrow> store \<times> nat"
where
  "process_messages ev det mbox [] maxUid s = (s, maxUid)"
| "process_messages ev det mbox (message # rest) maxUid s =
     process_messages ev det mbox rest
       (if maxUid < m_uid message then m_uid message else maxUid)
       (fst (processMessage ev det mbox message s))"

text \<open>Step 6: the checkpoint is written; the answer of the store is not looked at.\<close>

definition write_checkpoint :: "env \<Rightarrow> id \<Rightarrow> nat \<Rightarrow> store \<Rightarrow> error + store" where
  "write_checkpoint ev mailboxId maxUid s =
     (case fault ev UpdateMailbox of
        Throws \<Rightarrow> Inl StoreThrown
      | ReturnsError \<Rightarrow> Inr s
      | Works \<Rightarrow>
          Inr (s\<lparr> mailboxes :=
                    map (\<lambda>m. if mb_id m = mailboxId
                              then m\<lparr> mb_last_synced_uid := maxUid,
                                      mb_last_synced_at := Some (clock ev),
                                      mb_status := ACTIVE, mb_last_error := None \<rparr>
                              else m)
                      (mailboxes s) \<rparr>))"

text \<open>The \<open>catch\<close> of \<open>processMailbox\<close>: the mailbox is marked, if the store lets it.\<close>

definition record_error :: "env \<Rightarrow> id \<Rightarrow> error \<Rightarrow> store \<Rightarrow> store" where
  "record_error ev mailboxId e s =
     (case fault ev UpdateMailboxError of
        Works \<Rightarrow>
          s\<lparr> mailboxes :=
               map (\<lambda>m. if mb_id m = mailboxId
                         then m\<lparr> mb_status := ERROR, mb_last_error := Some e \<rparr>
                         else m)
                 (mailboxes s) \<rparr>
      | _ \<Rightarrow> s)"

text \<open>Steps 2 to 4: decrypt, connect, open INBOX and fetch.\<close>

definition fetch_messages :: "env \<Rightarrow> error + message list" where
  "fetch_messages ev =
     (if decrypt_fails ev then Inl DecryptError
      else case imap ev of
             Unreachable \<Rightarrow> Inl ImapConnectError
           | InboxUnavailable \<Rightarrow> Inl ImapFetchError
           | Inbox stream ending \<Rightarrow>
               fetchNewMessages None (EMAIL_BATCH_SIZE ev) (clock ev) stream ending)"

definition processMailbox :: "env \<Rightarrow> detector \<Rightarrow> id \<Rightarrow> store \<Rightarrow> store" where
  "processMailbox ev det mailboxId s =
     (case fault ev SelectMailbox of
        Throws \<Rightarrow> record_error ev mailboxId StoreThrown s
      | ReturnsError \<Rightarrow> s
      | Works \<Rightarrow>
          (case maybeSingle (filter (\<lambda>m. mb_id m = mailboxId \<and> mb_status m = ACTIVE)
                               (mailboxes s)) of
             None \<Rightarrow> s
           | Some mbox \<Rightarrow>
               (case fetch_messages ev of
                  Inl e \<Rightarrow> record_error ev mailboxId e s
                | Inr messages \<Rightarrow>
                    if messages = [] then s
                    else (case process_messages ev det mbox messages
                                 (mb_last_synced_uid mbox) s of
                            (s1, maxUid) \<Rightarrow>
                              (case write_checkpoint ev mailboxId maxUid s1 of
                                 Inl e \<Rightarrow> record_error ev mailboxId e s1
                               | Inr s2 \<Rightarrow> s2)))))"

section \<open>Sample inputs\<close>

text \<open>The messages the stream would yield if the batch were unbounded.\<close>

definition parsed_messages :: "instant \<Rightarrow> imap_item list \<Rightarrow> message list" where
  "parsed_messages now stream =
     concat (map (\<lambda>item. case i_parsed item of
                            Some parsed \<Rightarrow> [make_message now item parsed] | None \<Rightarrow> []) stream)"

text \<open>
  Scenario S6: a shop's mailing from a no-reply address with an unsubscribe header, as
  the IMAP client fetches it and as \<open>processMessage\<close> hands it to the classifier; and
  the same message with its headers in a plain object.
\<close>

definition s6_entries :: header_entries where
  "s6_entries = [(''list-unsubscribe'', ''<mailto:unsubscribe@store.example>'')]"

definition s6_parsed :: parsed_mail where
  "s6_parsed =
     \<lparr> p_messageId = Some ''<m1@store.example>'',
       p_subject = Some ''50% off - Limited time'',
       p_from_text = Some ''noreply@store.example'',
       p_to_text = Some ''alice@example.com'', p_text = Some ''Big savings'',
       p_html = None, p_headers = s6_entries, p_date = None \<rparr>"

definition s6_item :: imap_item where
  "s6_item = \<lparr> i_uid = 1, i_envelope_messageId = None, i_parsed = Some s6_parsed \<rparr>"

definition s6_fetched :: message where
  "s6_fetched = normalize_message (make_message 5000 s6_item s6_parsed)"

definition s6_plain :: message where
  "s6_plain = s6_fetched\<lparr> m_headers := PlainObject s6_entries \<rparr>"

definition good_parsed :: "nat \<Rightarrow> parsed_mail" where
  "good_parsed n =
     \<lparr> p_messageId = Some (''<m'' @ digits_of n @ ''@mail.example>''),
       p_subject = Some ''Hi'', p_from_text = Some ''bob@ex.org'',
       p_to_text = Some ''al@ex.org'', p_text = Some ''Lunch?'',
       p_html = None, p_headers = [], p_date = None \<rparr>"

definition good_item :: "nat \<Rightarrow> imap_item" where
  "good_item n =
     \<lparr> i_uid = n, i_envelope_messageId = Some ''<envelope@mail.example>'',
       i_parsed = Some (good_parsed n) \<rparr>"

definition good_message :: "instant \<Rightarrow> nat \<Rightarrow> message" where
  "good_message t n = make_message t (good_item n) (good_parsed n)"

definition bad_item :: "nat \<Rightarrow> imap_item" where
  "bad_item n = \<lparr> i_uid = n, i_envelope_messageId = None, i_parsed = None \<rparr>"

text \<open>
  The store constraint behind the dedup guard, and the question the guard asks.
\<close>

definition emails_unique :: "store \<Rightarrow> bool" where
  "emails_unique s = distinct (map (\<lambda>e. (e_mailbox_id e, e_uid e)) (emails s))"

definition has_email :: "mailbox \<Rightarrow> message \<Rightarrow> store \<Rightarrow> bool" where
  "has_email mbox msg s =
     list_ex (\<lambda>e. e_mailbox_id e = mb_id mbox \<and> e_uid e = m_uid msg) (emails s)"

text \<open>
  The store answers every call of \<open>processMessage\<close> for this UID that can make it
  throw: the dedup lookup, the thread lookups and the two inserts.
\<close>

definition store_works :: "env \<Rightarrow> nat \<Rightarrow> bool" where
  "store_works ev u =
     (fault ev (SelectEmail u) = Works \<and> fault ev (SelectParent u) = Works \<and>
      fault ev (SelectReferenced u) = Works \<and> fault ev (SelectSimilarThread u) = Works \<and>
      fault ev (InsertThread u) = Works \<and> fault ev (InsertEmail u) = Works)"

text \<open>No stored email of the mailbox has the UID or the message id of this message.\<close>

definition fresh :: "mailbox \<Rightarrow> message \<Rightarrow> store \<Rightarrow> bool" where
  "fresh mbox msg s =
     (\<not> list_ex (\<lambda>e. e_mailbox_id e = mb_id mbox \<and>
                      (e_uid e = m_uid msg \<or> e_message_id e = message_id_of mbox msg))
          (emails s))"

text \<open>The keys of the stored emails: mailbox, UID and message id of every row.\<close>

definition email_keys :: "store \<Rightarrow> (id \<times> nat \<times> string) list" where
  "email_keys s = map (\<lambda>e. (e_mailbox_id e, e_uid e, e_message_id e)) (emails s)"

definition last_synced_uid_of :: "id \<Rightarrow> store \<Rightarrow> nat option" where
  "last_synced_uid_of mailboxId s =
     map_option mb_last_synced_uid (find (\<lambda>m. mb_id m = mailboxId) (mailboxes s))"

definition last_synced_at_of :: "id \<Rightarrow> store \<Rightarrow> instant option option" where
  "last_synced_at_of mailboxId s =
     map_option mb_last_synced_at (find (\<lambda>m. mb_id m = mailboxId) (mailboxes s))"

text \<open>One active mailbox, synced up to UID 9 at instant 1000, and nothing stored yet.\<close>

definition mailbox0 :: mailbox where
  "mailbox0 =
     \<lparr> mb_id = 1, mb_user_id = 7, mb_imap_host = ''imap.example.com'', mb_status = ACTIVE,
       mb_last_synced_uid = 9, mb_last_synced_at = Some 1000, mb_last_error = None \<rparr>"

definition store0 :: store where
  "store0 =
     \<lparr> mailboxes = [mailbox0], emails = [], email_threads = [], email_bounces = [],
       email_bounce_events = [], next_id = 100 \<rparr>"

definition detector0 :: detector where
  "detector0 =
     \<lparr> extractRecipientEmail = (\<lambda>body subject. Some ''alice@example.com''),
       extractDiagnostic = (\<lambda>body. None) \<rparr>"

text \<open>Scenario S5: UIDs 10, 11 and 12 arrive; the store rejects the insert of 11.\<close>

definition env_s5 :: env where
  "env_s5 =
     \<lparr> fault = (\<lambda>st. if st = InsertEmail 11 then ReturnsError else Works),
       clock = 5000, decrypt_fails = False,
       imap = Inbox [good_item 10, good_item 11, good_item 12] EndOfStream,
       EMAIL_BATCH_SIZE = None \<rparr>"

text \<open>A cycle in which the server has nothing new.\<close>

definition env_quiet :: env where
  "env_quiet =
     \<lparr> fault = (\<lambda>st. Works), clock = 5000, decrypt_fails = False,
       imap = Inbox [] EndOfStream, EMAIL_BATCH_SIZE = None \<rparr>"

text \<open>A second cycle over UID 10, whose email is already stored.\<close>

definition store_seen :: store where
  "store_seen =
     store0\<lparr> emails :=
                [new_email env_quiet mailbox0 (good_message 5000 10)
                   \<lparr>category = HUMAN, confidence = 0.7\<rparr> 100 101],
              next_id := 102 \<rparr>"

definition env_again :: env where
  "env_again = env_quiet\<lparr> imap := Inbox [good_item 10] EndOfStream \<rparr>"



section \<open>Verified properties\<close>

subsection \<open>Subject normalisation\<close>







lemma strip_ci_drop: "strip_ci p s = Some r \<Longrightarrow> r = drop (length p) s"
  by (induction p s rule: strip_ci.induct) (auto split: if_splits)






























subsection \<open>SMTP status code of a bounce\<close>

lemma code_at_from_0: "code_at_from pw s 0 = (\<not> pw \<and> code_here s)"
proof (cases s rule: code_here.cases)
  case (1 a b c rest)
  then show ?thesis by (cases rest) (auto simp: code_at_from_def)
qed (auto simp: code_at_from_def)

lemma code_at_from_Suc:
  "code_at_from pw (c # cs) (Suc i) = code_at_from (is_word_char c) cs i"
  by (cases i) (auto simp: code_at_from_def)

lemma scan_code_None: "scan_code pw s = None \<longleftrightarrow> (\<forall>i. \<not> code_at_from pw s i)"
proof (induction s arbitrary: pw)
  case Nil
  show ?case by (simp add: code_at_from_def)
next
  case (Cons c cs)
  show ?case
  proof (cases "\<not> pw \<and> code_here (c # cs)")
    case True
    then have "code_at_from pw (c # cs) 0" by (simp add: code_at_from_0)
    with True show ?thesis by auto
  next
    case False
    then have z: "\<not> code_at_from pw (c # cs) 0" by (simp add: code_at_from_0)
    have "(\<forall>i. \<not> code_at_from pw (c # cs) i) \<longleftrightarrow> (\<forall>i. \<not> code_at_from (is_word_char c) cs i)"
    proof
      assume a: "\<forall>i. \<not> code_at_from pw (c # cs) i"
      show "\<forall>i. \<not> code_at_from (is_word_char c) cs i"
      proof
        fix i
        from a have "\<not> code_at_from pw (c # cs) (Suc i)" by blast
        then show "\<not> code_at_from (is_word_char c) cs i" by (simp add: code_at_from_Suc)
      qed
    next
      assume a: "\<forall>i. \<not> code_at_from (is_word_char c) cs i"
      show "\<forall>i. \<not> code_at_from pw (c # cs) i"
      proof
        fix i
        show "\<not> code_at_from pw (c # cs) i"
          using z a by (cases i) (simp_all add: code_at_from_Suc)
      qed
    qed
    with False Cons [of "is_word_char c"] show ?thesis by auto
  qed
qed

lemma scan_code_first:
  "code_at_from pw s i \<Longrightarrow> (\<forall>j<i. \<not> code_at_from pw s j) \<Longrightarrow>
   scan_code pw s = Some (take 3 (drop i s))"
proof (induction s arbitrary: pw i)
  case Nil
  then show ?case by (simp add: code_at_from_def)
next
  case (Cons c cs)
  show ?case
  proof (cases i)
    case 0
    with Cons.prems(1) have "\<not> pw \<and> code_here (c # cs)" by (simp add: code_at_from_0)
    with 0 show ?thesis by simp
  next
    case (Suc k)
    with Cons.prems(2) have "\<not> code_at_from pw (c # cs) 0" by blast
    then have n: "\<not> (\<not> pw \<and> code_here (c # cs))" by (simp add: code_at_from_0)
    from Cons.prems(1) Suc have k: "code_at_from (is_word_char c) cs k"
      by (simp add: code_at_from_Suc)
    have "\<forall>j<k. \<not> code_at_from (is_word_char c) cs j"
    proof (intro allI impI)
      fix j assume "j < k"
      then have "Suc j < i" using Suc by simp
      with Cons.prems(2) have "\<not> code_at_from pw (c # cs) (Suc j)" by blast
      then show "\<not> code_at_from (is_word_char c) cs j" by (simp add: code_at_from_Suc)
    qed
    with k have r: "scan_code (is_word_char c) cs = Some (take 3 (drop k cs))"
      by (rule Cons.IH)
    from n have "scan_code pw (c # cs) = scan_code (is_word_char c) cs"
      by (simp only: scan_code.simps if_False)
    with r Suc show ?thesis by simp
  qed
qed

lemma scan_code_length: "scan_code pw s = Some c \<Longrightarrow> length c \<le> 3"
  by (induction s arbitrary: pw) (auto split: if_splits)

text \<open>
  Claim C6, as the code has it. The extracted SMTP error code is the first substring of
  the body that matches \<open>[245]\d{2}\<close> between two word boundaries (no letter, digit or
  underscore directly before or after it), and the code is the string \<open>UNKNOWN\<close>
  exactly when the body has no such delimited substring.
\<close>

theorem extractErrorCode_word_bounded:
  "(parseBounce_errorCode body = ''UNKNOWN'' \<longleftrightarrow> (\<forall>i. \<not> code_at body i)) \<and>
   (\<forall>i. code_at body i \<and> (\<forall>j<i. \<not> code_at body j) \<longrightarrow>
        parseBounce_errorCode body = take 3 (drop i body))"
proof
  have none: "scan_code False body = None \<longleftrightarrow> (\<forall>i. \<not> code_at body i)"
    unfolding code_at_def by (rule scan_code_None)
  show "parseBounce_errorCode body = ''UNKNOWN'' \<longleftrightarrow> (\<forall>i. \<not> code_at body i)"
  proof (cases "scan_code False body")
    case None
    then have "parseBounce_errorCode body = ''UNKNOWN''"
      by (simp add: parseBounce_errorCode_def extractErrorCode_def)
    with None none show ?thesis by blast
  next
    case (Some c)
    then have l: "length c \<le> 3" by (rule scan_code_length)
    have "c \<noteq> ''UNKNOWN''"
    proof
      assume "c = ''UNKNOWN''"
      then have "length c = 7" by simp
      with l show False by simp
    qed
    moreover from Some have "parseBounce_errorCode body = c"
      by (simp add: parseBounce_errorCode_def extractErrorCode_def)
    moreover from Some none have "\<not> (\<forall>i. \<not> code_at body i)" by simp
    ultimately show ?thesis by simp
  qed
next
  show "\<forall>i. code_at body i \<and> (\<forall>j<i. \<not> code_at body j) \<longrightarrow>
        parseBounce_errorCode body = take 3 (drop i body)"
  proof (intro allI impI)
    fix i
    assume a: "code_at body i \<and> (\<forall>j<i. \<not> code_at body j)"
    have "scan_code False body = Some (take 3 (drop i body))"
    proof (rule scan_code_first)
      from a show "code_at_from False body i" by (simp add: code_at_def)
      from a show "\<forall>j<i. \<not> code_at_from False body j" by (simp add: code_at_def)
    qed
    then show "parseBounce_errorCode body = take 3 (drop i body)"
      by (simp add: parseBounce_errorCode_def extractErrorCode_def)
  qed
qed

theorem extractErrorCode_word_bounded_witness:
  "code_at ''2025 550 User unknown'' 5 \<and>
   \<not> code_at ''2025 550 User unknown'' 0 \<and> \<not> code_at ''2025 550 User unknown'' 1 \<and>
   \<not> code_at ''2025 550 User unknown'' 2 \<and> \<not> code_at ''2025 550 User unknown'' 3 \<and>
   \<not> code_at ''2025 550 User unknown'' 4 \<and>
   parseBounce_errorCode ''2025 550 User unknown'' = ''550''"
proof -
  have h1: "code_at ''2025 550 User unknown'' 5" by code_simp
  have n: "\<not> code_at ''2025 550 User unknown'' 0" "\<not> code_at ''2025 550 User unknown'' 1"
    "\<not> code_at ''2025 550 User unknown'' 2" "\<not> code_at ''2025 550 User unknown'' 3"
    "\<not> code_at ''2025 550 User unknown'' 4"
    by code_simp+
  have h2: "\<forall>j<5. \<not> code_at ''2025 550 User unknown'' j"
  proof (intro allI impI)
    fix j :: nat
    assume "j < 5"
    then have "j = 0 \<or> j = 1 \<or> j = 2 \<or> j = 3 \<or> j = 4" by arith
    with n show "\<not> code_at ''2025 550 User unknown'' j" by blast
  qed
  from extractErrorCode_word_bounded [of "''2025 550 User unknown''"] h1 h2
  have "parseBounce_errorCode ''2025 550 User unknown'' = take 3 (drop 5 ''2025 550 User unknown'')"
    by blast
  with h1 n show ?thesis by simp
qed

text \<open>
  The unamended reading fails: three matching digits inside a longer run of word
  characters are skipped by the code.
\<close>

theorem errorCode_not_first_substring:
  "parseBounce_errorCode ''2025 550 User unknown'' \<noteq> spec_error_code ''2025 550 User unknown'' \<and>
   parseBounce_errorCode ''id5501'' = ''UNKNOWN'' \<and> spec_first_code ''id5501'' = Some ''550''"
  by code_simp

subsection \<open>The SINCE date\<close>

text \<open>
  Claim C7. The search date is today minus \<open>since_days\<close>, written as DD-Mon-YYYY with a
  two-digit day. The code writes the day without padding: thirty days before the fifth
  of February 2026 it produces \<open>6-Jan-2026\<close>, where the claim (and the comment above
  the format in the source) expects \<open>06-Jan-2026\<close>.
\<close>

theorem sinceDateStr_unpadded:
  "since_string \<lparr>fullYear = 2026, month = 1, day = 5\<rparr> 30 = ''6-Jan-2026''"
  by code_simp


subsection \<open>Batch limit of the fetch loop\<close>

lemma fetch_loop_bound:
  "fetch_loop batchSize now items ending acc n = Inr ms \<Longrightarrow> length acc = n \<Longrightarrow>
   int n \<le> batchSize \<Longrightarrow> int (length ms) \<le> batchSize"
proof (induction items arbitrary: acc n)
  case Nil
  then show ?case by (auto split: stream_end.splits)
next
  case (Cons item rest)
  show ?case
  proof (cases "batchSize \<le> int n")
    case True
    with Cons.prems show ?thesis by simp
  next
    case False
    show ?thesis
    proof (cases "i_parsed item")
      case None
      with False Cons.prems have "fetch_loop batchSize now rest ending acc n = Inr ms" by simp
      then show ?thesis using Cons.prems(2,3) by (rule Cons.IH)
    next
      case (Some parsed)
      with False Cons.prems
      have "fetch_loop batchSize now rest ending (acc @ [make_message now item parsed]) (n + 1) = Inr ms"
        by simp
      moreover have "length (acc @ [make_message now item parsed]) = n + 1"
        using Cons.prems(2) by simp
      moreover have "int (n + 1) \<le> batchSize" using False by simp
      ultimately show ?thesis by (rule Cons.IH)
    qed
  qed
qed

lemma parsed_messages_Cons:
  "parsed_messages now (item # rest) =
     (case i_parsed item of Some parsed \<Rightarrow> [make_message now item parsed] | None \<Rightarrow> []) @
     parsed_messages now rest"
  by (simp add: parsed_messages_def)

lemma fetch_loop_take:
  "fetch_loop batchSize now items EndOfStream acc n =
     Inr (acc @ take (nat (batchSize - int n)) (parsed_messages now items))"
proof (induction items arbitrary: acc n)
  case Nil
  show ?case by (simp add: parsed_messages_def)
next
  case (Cons item rest)
  show ?case
  proof (cases "batchSize \<le> int n")
    case True
    then show ?thesis by simp
  next
    case False
    then have pos: "nat (batchSize - int n) = Suc (nat (batchSize - int (n + 1)))" by simp
    show ?thesis
    proof (cases "i_parsed item")
      case None
      with False show ?thesis by (simp add: Cons.IH parsed_messages_Cons)
    next
      case (Some parsed)
      with False show ?thesis
        by (simp only: fetch_loop.simps if_False option.case Cons.IH parsed_messages_Cons pos)
           simp
    qed
  qed
qed

lemma length_parsed_messages:
  "length (parsed_messages now stream) + parse_failures stream = length stream"
proof (induction stream)
  case Nil
  show ?case by (simp add: parsed_messages_def parse_failures_def)
next
  case (Cons item rest)
  then show ?case
    by (cases "i_parsed item") (simp_all add: parsed_messages_Cons parse_failures_def)
qed

text \<open>
  Claim C9, as the code has it. For every fetch call with a non-negative \<open>batch_size\<close>
  option, at most \<open>batch_size\<close> messages are returned; a mailbox with exactly
  \<open>batch_size + 1\<close> qualifying messages, of which at most one fails to parse, yields
  exactly \<open>batch_size\<close> parsed messages in the first cycle.
\<close>

theorem fetch_batch_bound:
  assumes "0 \<le> batchSize"
  shows "(\<forall>ms. fetchNewMessages (Some batchSize) env_var now stream ending = Inr ms \<longrightarrow>
              int (length ms) \<le> batchSize) \<and>
         (int (length stream) = batchSize + 1 \<and> parse_failures stream \<le> 1 \<and>
          ending = EndOfStream \<longrightarrow>
            (\<exists>ms. fetchNewMessages (Some batchSize) env_var now stream ending = Inr ms \<and>
                  int (length ms) = batchSize))"
proof (intro conjI allI impI)
  fix ms
  assume "fetchNewMessages (Some batchSize) env_var now stream ending = Inr ms"
  then have "fetch_loop batchSize now stream ending [] 0 = Inr ms"
    by (simp add: fetchNewMessages_def)
  then show "int (length ms) \<le> batchSize"
    using assms fetch_loop_bound [of batchSize now stream ending "[]" 0 ms] by simp
next
  assume a: "int (length stream) = batchSize + 1 \<and> parse_failures stream \<le> 1 \<and>
          ending = EndOfStream"
  let ?ms = "take (nat batchSize) (parsed_messages now stream)"
  from a have "fetchNewMessages (Some batchSize) env_var now stream ending = Inr ?ms"
    by (simp add: fetchNewMessages_def fetch_loop_take)
  moreover have "int (length ?ms) = batchSize"
  proof -
    from a have "length stream = Suc (nat batchSize)" using assms by linarith
    with a length_parsed_messages [of now stream]
    have "nat batchSize \<le> length (parsed_messages now stream)" by linarith
    then have "length ?ms = nat batchSize" by simp
    with assms show ?thesis by simp
  qed
  ultimately show "\<exists>ms. fetchNewMessages (Some batchSize) env_var now stream ending = Inr ms \<and>
                  int (length ms) = batchSize"
    by blast
qed

theorem fetch_batch_bound_witness:
  "(0::int) \<le> 2 \<and>
   int (length [good_item 1, bad_item 2, good_item 3]) = 2 + 1 \<and>
   parse_failures [good_item 1, bad_item 2, good_item 3] \<le> 1 \<and>
   (\<exists>ms. fetchNewMessages (Some 2) None 0 [good_item 1, bad_item 2, good_item 3] EndOfStream
            = Inr ms \<and> int (length ms) = 2)"
proof -
  have h0: "(0::int) \<le> 2" by simp
  have h1: "int (length [good_item 1, bad_item 2, good_item 3]) = 2 + 1" by simp
  have h2: "parse_failures [good_item 1, bad_item 2, good_item 3] \<le> 1"
    by (simp add: parse_failures_def good_item_def bad_item_def)
  from fetch_batch_bound [OF h0, of None 0 "[good_item 1, bad_item 2, good_item 3]" EndOfStream]
    h1 h2
  have "\<exists>ms. fetchNewMessages (Some 2) None 0 [good_item 1, bad_item 2, good_item 3] EndOfStream
            = Inr ms \<and> int (length ms) = 2"
    by blast
  with h0 h1 h2 show ?thesis by blast
qed

text \<open>
  Unparsable messages do not count towards the batch, so two of them leave a batch of
  one empty; and a negative limit returns no message, which is still more than the limit.
\<close>

theorem fetch_batch_short_counterexample:
  "int (length [bad_item 1, bad_item 2]) = 1 + 1 \<and>
   fetchNewMessages (Some 1) None 0 [bad_item 1, bad_item 2] EndOfStream = Inr [] \<and>
   fetchNewMessages (Some (- 1)) None 0 [] EndOfStream = Inr [] \<and>
   \<not> int (length ([] :: message list)) \<le> - 1"
  by (simp add: fetchNewMessages_def bad_item_def)

subsection \<open>Classification precedence\<close>

text \<open>
  Claim C3. A message from \<open>noreply@store.example\<close> with subject
  \<open>50% off - Limited time\<close> and a List-Unsubscribe header (no List-Post) is to be
  classified MARKETING with confidence 0.80. On the message as the IMAP client fetches
  it the headers are a \<open>Map\<close>: the classifier's property access finds no
  List-Unsubscribe, the transactional sender pattern decides, and the result is
  TRANSACTIONAL with confidence 0.9. With the same headers in a plain object the
  classifier answers MARKETING with confidence 0.8, as the claim says.
\<close>

theorem classify_fetched_list_mail_transactional:
  "fetch_loop 100 5000 [s6_item] EndOfStream [] 0 = Inr [make_message 5000 s6_item s6_parsed] \<and>
   header_get (m_headers s6_fetched) ''list-unsubscribe''
     = Some ''<mailto:unsubscribe@store.example>'' \<and>
   header_get (m_headers s6_fetched) ''list-post'' = None \<and>
   category (classify s6_fetched) = TRANSACTIONAL \<and>
   confidence (classify s6_fetched) = 0.9 \<and>
   category (classify s6_plain) = MARKETING \<and>
   confidence (classify s6_plain) = 0.8"
proof -
  have f: "fetch_loop 100 5000 [s6_item] EndOfStream [] 0
             = Inr [make_message 5000 s6_item s6_parsed]"
    by (simp add: s6_item_def)
  have h: "header_get (m_headers s6_fetched) ''list-unsubscribe''
             = Some ''<mailto:unsubscribe@store.example>''"
    "header_get (m_headers s6_fetched) ''list-post'' = None"
    by (simp_all add: s6_fetched_def normalize_message_def make_message_def s6_parsed_def
          s6_entries_def header_get_def)
  have t: "category (classify s6_fetched) = TRANSACTIONAL" by code_simp
  have m: "category (classify s6_plain) = MARKETING" by code_simp
  from t have "classify s6_fetched = \<lparr>category = TRANSACTIONAL, confidence = 0.9\<rparr>"
    by (simp add: classify_def split: if_splits)
  then have tc: "confidence (classify s6_fetched) = 0.9" by simp
  from m have "classify s6_plain = \<lparr>category = MARKETING, confidence = 0.8\<rparr>"
    by (simp add: classify_def split: if_splits)
  then have mc: "confidence (classify s6_plain) = 0.8" by simp
  from f h t tc m mc show ?thesis by blast
qed

subsection \<open>The processor: what each step leaves untouched\<close>

lemma thread_frame:
  assumes "findOrCreateThread ev u mailboxId userId email s = (s1, r)"
  shows "emails s1 = emails s \<and> mailboxes s1 = mailboxes s \<and>
         email_bounces s1 = email_bounces s \<and>
         email_bounce_events s1 = email_bounce_events s"
  using assms
  by (auto simp: findOrCreateThread_def create_thread_def
           split: sum.splits option.splits outcome.splits)

lemma thread_found:
  assumes "fault ev (SelectParent u) = Works" "fault ev (SelectReferenced u) = Works"
    "fault ev (SelectSimilarThread u) = Works" "fault ev (InsertThread u) = Works"
  shows "\<exists>s1 threadId. findOrCreateThread ev u mailboxId userId email s = (s1, Inr threadId)"
  using assms
  by (auto simp: findOrCreateThread_def create_thread_def thread_by_parent_def
        thread_by_references_def thread_by_subject_def Let_def
        split: sum.splits option.splits)

lemma stats_frame:
  "emails (updateThreadStats ev u threadId s) = emails s \<and>
   mailboxes (updateThreadStats ev u threadId s) = mailboxes s \<and>
   email_bounces (updateThreadStats ev u threadId s) = email_bounces s \<and>
   email_bounce_events (updateThreadStats ev u threadId s) = email_bounce_events s"
  by (simp add: updateThreadStats_def Let_def split: outcome.splits list.splits)

lemma event_frame:
  "emails (fst (insert_bounce_event ev u userId bounceId bd s)) = emails s \<and>
   mailboxes (fst (insert_bounce_event ev u userId bounceId bd s)) = mailboxes s"
  by (simp add: insert_bounce_event_def split: outcome.splits)

lemma bounce_frame:
  "emails (processBounce ev mailboxId userId msg bd s) = emails s \<and>
   mailboxes (processBounce ev mailboxId userId msg bd s) = mailboxes s"
  by (simp add: processBounce_def processBounce_try_def event_frame
      split: outcome.splits option.splits)

lemma branch_frame:
  "emails (bounce_branch ev det mbox msg cls s) = emails s \<and>
   mailboxes (bounce_branch ev det mbox msg cls s) = mailboxes s"
  by (simp add: bounce_branch_def Let_def bounce_frame)

lemma insert_email_frame:
  assumes "insert_email ev row s = Inr s2"
  shows "emails s2 = emails s @ [row] \<and> mailboxes s2 = mailboxes s \<and>
         email_bounces s2 = email_bounces s \<and>
         email_bounce_events s2 = email_bounce_events s"
  using assms by (auto simp: insert_email_def split: outcome.splits if_splits)


lemma processMessage_cases:
  obtains
    (lookup_thrown) e where
      "find_existing ev mbox message s = Inl e"
      "processMessage ev det mbox message s = (s, Some e)"
  | (duplicate) existing where
      "find_existing ev mbox message s = Inr (Some existing)"
      "processMessage ev det mbox message s = (s, None)"
  | (no_thread) s1 e where
      "find_existing ev mbox message s = Inr None"
      "findOrCreateThread ev (m_uid message) (mb_id mbox) (mb_user_id mbox)
         (thread_email_of ev (normalize_message message)) s = (s1, Inl e)"
      "processMessage ev det mbox message s = (s1, Some e)"
  | (rejected) s1 threadId e where
      "find_existing ev mbox message s = Inr None"
      "findOrCreateThread ev (m_uid message) (mb_id mbox) (mb_user_id mbox)
         (thread_email_of ev (normalize_message message)) s = (s1, Inr threadId)"
      "insert_email ev (new_email ev mbox (normalize_message message)
         (classify (normalize_message message)) threadId (next_id s1)) s1 = Inl e"
      "processMessage ev det mbox message s = (s1, Some e)"
  | (stored) s1 threadId s2 where
      "find_existing ev mbox message s = Inr None"
      "findOrCreateThread ev (m_uid message) (mb_id mbox) (mb_user_id mbox)
         (thread_email_of ev (normalize_message message)) s = (s1, Inr threadId)"
      "insert_email ev (new_email ev mbox (normalize_message message)
         (classify (normalize_message message)) threadId (next_id s1)) s1 = Inr s2"
      "processMessage ev det mbox message s =
         (bounce_branch ev det mbox (normalize_message message)
            (classify (normalize_message message))
            (updateThreadStats ev (m_uid message) threadId s2), None)"
proof (cases "find_existing ev mbox message s")
  case (Inl e)
  then have "processMessage ev det mbox message s = (s, Some e)"
    by (simp add: processMessage_def)
  with Inl show ?thesis by (rule lookup_thrown)
next
  case (Inr found)
  show ?thesis
  proof (cases found)
    case (Some existing)
    with Inr have f: "find_existing ev mbox message s = Inr (Some existing)" by simp
    then have "processMessage ev det mbox message s = (s, None)"
      by (simp add: processMessage_def)
    with f show ?thesis by (rule duplicate)
  next
    case None
    with Inr have f: "find_existing ev mbox message s = Inr None" by simp
    have uid: "m_uid (normalize_message message) = m_uid message"
      by (simp add: normalize_message_def)
    obtain s1 r where t: "findOrCreateThread ev (m_uid message) (mb_id mbox) (mb_user_id mbox)
         (thread_email_of ev (normalize_message message)) s = (s1, r)"
      by (cases "findOrCreateThread ev (m_uid message) (mb_id mbox) (mb_user_id mbox)
         (thread_email_of ev (normalize_message message)) s") blast
    show ?thesis
    proof (cases r)
      case (Inl e)
      with f t uid have "processMessage ev det mbox message s = (s1, Some e)"
        by (simp add: processMessage_def Let_def)
      with f t Inl show ?thesis by (auto intro: no_thread)
    next
      case (Inr threadId)
      note tid = Inr
      show ?thesis
      proof (cases "insert_email ev (new_email ev mbox (normalize_message message)
         (classify (normalize_message message)) threadId (next_id s1)) s1")
        case (Inl e)
        with f t tid uid have "processMessage ev det mbox message s = (s1, Some e)"
          by (simp add: processMessage_def Let_def)
        with f t tid Inl show ?thesis by (auto intro: rejected)
      next
        case (Inr s2)
        with f t tid uid have "processMessage ev det mbox message s =
         (bounce_branch ev det mbox (normalize_message message)
            (classify (normalize_message message))
            (updateThreadStats ev (m_uid message) threadId s2), None)"
          by (simp add: processMessage_def Let_def)
        with f t tid Inr show ?thesis by (auto intro: stored)
      qed
    qed
  qed
qed

lemma processMessage_mailboxes:
  "mailboxes (fst (processMessage ev det mbox message s)) = mailboxes s"
proof (cases rule: processMessage_cases [of ev mbox message s det])
  case (lookup_thrown e)
  then show ?thesis by simp
next
  case (duplicate existing)
  then show ?thesis by simp
next
  case (no_thread s1 e)
  then show ?thesis using thread_frame by fastforce
next
  case (rejected s1 threadId e)
  then show ?thesis using thread_frame by fastforce
next
  case (stored s1 threadId s2)
  from stored(2) have "mailboxes s1 = mailboxes s" using thread_frame by blast
  moreover from stored(3) have "mailboxes s2 = mailboxes s1" using insert_email_frame by blast
  ultimately show ?thesis using stored(4) by (simp add: branch_frame stats_frame)
qed

lemma unique_filter:
  "distinct (map f xs) \<Longrightarrow> list_ex (\<lambda>e. f e = k) xs \<Longrightarrow> \<exists>row. filter (\<lambda>e. f e = k) xs = [row]"
proof (induction xs)
  case Nil
  then show ?case by simp
next
  case (Cons x xs)
  show ?case
  proof (cases "f x = k")
    case True
    from Cons.prems(1) have "f x \<notin> f ` set xs" by simp
    with True have "\<forall>e\<in>set xs. f e \<noteq> k" by blast
    then have "filter (\<lambda>e. f e = k) xs = []" by (simp add: filter_empty_conv)
    with True show ?thesis by simp
  next
    case False
    with Cons show ?thesis by simp
  qed
qed

lemma find_existing_unique:
  assumes "fault ev (SelectEmail (m_uid message)) = Works"
    and "emails_unique s" and "has_email mbox message s"
  shows "\<exists>row. find_existing ev mbox message s = Inr (Some row)"
proof -
  from assms(2) have d: "distinct (map (\<lambda>e. (e_mailbox_id e, e_uid e)) (emails s))"
    by (simp add: emails_unique_def)
  from assms(3) have "list_ex (\<lambda>e. (e_mailbox_id e, e_uid e) = (mb_id mbox, m_uid message)) (emails s)"
    by (simp add: has_email_def)
  with d have "\<exists>row. filter (\<lambda>e. (e_mailbox_id e, e_uid e) = (mb_id mbox, m_uid message)) (emails s) = [row]"
    by (rule unique_filter)
  then obtain row where "filter (\<lambda>e. (e_mailbox_id e, e_uid e) = (mb_id mbox, m_uid message)) (emails s) = [row]"
    by blast
  then have "filter (\<lambda>e. e_mailbox_id e = mb_id mbox \<and> e_uid e = m_uid message) (emails s) = [row]"
    by simp
  with assms(1) show ?thesis
    by (simp add: find_existing_def maybeSingle_def)
qed

lemma processMessage_duplicate:
  assumes "fault ev (SelectEmail (m_uid message)) = Works"
    and "emails_unique s" and "has_email mbox message s"
  shows "processMessage ev det mbox message s = (s, None)"
proof -
  from assms obtain row where "find_existing ev mbox message s = Inr (Some row)"
    using find_existing_unique by blast
  then show ?thesis by (simp add: processMessage_def)
qed

lemma process_messages_duplicates:
  assumes "\<forall>m\<in>set messages. fault ev (SelectEmail (m_uid m)) = Works \<and> has_email mbox m s"
    and "emails_unique s"
  shows "fst (process_messages ev det mbox messages maxUid s) = s"
  using assms
proof (induction messages arbitrary: maxUid)
  case Nil
  show ?case by simp
next
  case (Cons m rest)
  then have "processMessage ev det mbox m s = (s, None)"
    by (simp add: processMessage_duplicate)
  with Cons show ?case by simp
qed

lemma Max_insert_insert:
  "finite A \<Longrightarrow> Max (insert (a::nat) (insert b A)) = Max (insert (max a b) A)"
  by (cases "A = {}") (simp_all add: max.assoc)

lemma process_messages_max:
  "snd (process_messages ev det mbox messages maxUid s) =
     Max (insert maxUid (set (map m_uid messages)))"
proof (induction messages arbitrary: maxUid s)
  case Nil
  show ?case by simp
next
  case (Cons m rest)
  have "(if maxUid < m_uid m then m_uid m else maxUid) = max maxUid (m_uid m)"
    by (simp add: max_def)
  moreover have "Max (insert maxUid (insert (m_uid m) (set (map m_uid rest)))) =
        Max (insert (max maxUid (m_uid m)) (set (map m_uid rest)))"
    by (rule Max_insert_insert) simp
  ultimately show ?case using Cons by simp
qed

lemma process_messages_mailboxes:
  "mailboxes (fst (process_messages ev det mbox messages maxUid s)) = mailboxes s"
proof (induction messages arbitrary: maxUid s)
  case Nil
  show ?case by simp
next
  case (Cons m rest)
  then show ?case by (simp add: processMessage_mailboxes)
qed

lemma normalize_message_keys:
  "m_uid (normalize_message message) = m_uid message"
  "message_id_of mbox (normalize_message message) = message_id_of mbox message"
  by (simp_all add: normalize_message_def message_id_of_def)

lemma new_email_keys:
  "e_mailbox_id (new_email ev mbox msg cls threadId i) = mb_id mbox"
  "e_uid (new_email ev mbox msg cls threadId i) = m_uid msg"
  "e_message_id (new_email ev mbox msg cls threadId i) = message_id_of mbox msg"
  "e_category (new_email ev mbox msg cls threadId i) = category cls"
  by (simp_all add: new_email_def)

lemma fresh_no_row:
  "fresh mbox message s \<Longrightarrow>
   filter (\<lambda>e. e_mailbox_id e = mb_id mbox \<and> e_uid e = m_uid message) (emails s) = []"
  by (auto simp: fresh_def list_ex_iff filter_empty_conv)

lemma processMessage_stored:
  assumes "store_works ev (m_uid message)" and "fresh mbox message s"
  shows "\<exists>threadId i s2.
           processMessage ev det mbox message s =
             (bounce_branch ev det mbox (normalize_message message)
                (classify (normalize_message message))
                (updateThreadStats ev (m_uid message) threadId s2), None) \<and>
           emails s2 = emails s @ [new_email ev mbox (normalize_message message)
                                     (classify (normalize_message message)) threadId i] \<and>
           email_bounce_events s2 = email_bounce_events s"
proof (cases rule: processMessage_cases [of ev mbox message s det])
  case (lookup_thrown e)
  with assms(1) show ?thesis
    by (simp add: store_works_def find_existing_def)
next
  case (duplicate existing)
  with assms show ?thesis
    by (simp add: store_works_def find_existing_def fresh_no_row maybeSingle_def)
next
  case (no_thread s1 e)
  from assms(1) obtain s1' threadId where
    "findOrCreateThread ev (m_uid message) (mb_id mbox) (mb_user_id mbox)
         (thread_email_of ev (normalize_message message)) s = (s1', Inr threadId)"
    unfolding store_works_def using thread_found by blast
  with no_thread(2) show ?thesis by simp
next
  case (rejected s1 threadId e)
  from rejected(2) have e1: "emails s1 = emails s" using thread_frame by blast
  from assms(2) have "\<not> email_key_taken (new_email ev mbox (normalize_message message)
         (classify (normalize_message message)) threadId (next_id s1)) s1"
    by (simp add: email_key_taken_def fresh_def e1 new_email_keys normalize_message_keys)
  with assms(1) rejected(3) show ?thesis
    by (simp add: insert_email_def store_works_def new_email_keys normalize_message_keys)
next
  case (stored s1 threadId s2)
  from stored(2) have f1: "emails s1 = emails s"
    "email_bounce_events s1 = email_bounce_events s"
    using thread_frame by blast+
  from stored(3) have f2: "emails s2 = emails s1 @ [new_email ev mbox (normalize_message message)
         (classify (normalize_message message)) threadId (next_id s1)]"
    "email_bounce_events s2 = email_bounce_events s1"
    using insert_email_frame by blast+
  from stored(4) f1 f2 show ?thesis by auto
qed

lemma processMessage_not_inserted:
  assumes "fault ev (InsertEmail (m_uid message)) \<noteq> Works"
  shows "emails (fst (processMessage ev det mbox message s)) = emails s"
proof (cases rule: processMessage_cases [of ev mbox message s det])
  case (lookup_thrown e)
  then show ?thesis by simp
next
  case (duplicate existing)
  then show ?thesis by simp
next
  case (no_thread s1 e)
  then show ?thesis using thread_frame by fastforce
next
  case (rejected s1 threadId e)
  then show ?thesis using thread_frame by fastforce
next
  case (stored s1 threadId s2)
  with assms show ?thesis
    by (auto simp: insert_email_def new_email_keys normalize_message_keys split: outcome.splits)
qed

lemma email_keys_stored:
  assumes "store_works ev (m_uid message)" and "fresh mbox message s"
  shows "email_keys (fst (processMessage ev det mbox message s)) =
           email_keys s @ [(mb_id mbox, m_uid message, message_id_of mbox message)]"
proof -
  from processMessage_stored [OF assms, of det] obtain threadId i s2 where
    p: "processMessage ev det mbox message s =
             (bounce_branch ev det mbox (normalize_message message)
                (classify (normalize_message message))
                (updateThreadStats ev (m_uid message) threadId s2), None)"
    and e: "emails s2 = emails s @ [new_email ev mbox (normalize_message message)
                                     (classify (normalize_message message)) threadId i]"
    by blast
  from p e show ?thesis
    by (simp add: email_keys_def branch_frame stats_frame new_email_keys normalize_message_keys)
qed

lemma email_keys_not_inserted:
  assumes "fault ev (InsertEmail (m_uid message)) \<noteq> Works"
  shows "email_keys (fst (processMessage ev det mbox message s)) = email_keys s"
  using processMessage_not_inserted [OF assms] by (simp add: email_keys_def)

lemma fresh_keys:
  "fresh mbox message s \<longleftrightarrow>
     (\<forall>k\<in>set (email_keys s).
        \<not> (fst k = mb_id mbox \<and>
           (fst (snd k) = m_uid message \<or> snd (snd k) = message_id_of mbox message)))"
  by (auto simp: fresh_def email_keys_def list_ex_iff)

lemma maybeSingle_member:
  "maybeSingle (filter P xs) = Some x \<Longrightarrow> x \<in> set xs \<and> P x"
proof -
  assume "maybeSingle (filter P xs) = Some x"
  then have "filter P xs = [x]"
    by (auto simp: maybeSingle_def split: list.splits)
  then have "x \<in> set (filter P xs)" by simp
  then show ?thesis by simp
qed

lemma checkpoint_found:
  "list_ex (\<lambda>m. mb_id m = i) ms \<Longrightarrow>
   map_option mb_last_synced_uid
     (find (\<lambda>m. mb_id m = i)
        (map (\<lambda>m. if mb_id m = i
                   then m\<lparr> mb_last_synced_uid := M, mb_last_synced_at := a,
                           mb_status := st, mb_last_error := le \<rparr>
                   else m) ms)) = Some M"
  by (induction ms) auto

lemma cycle_result:
  assumes "fault ev SelectMailbox = Works"
    and "maybeSingle (filter (\<lambda>m. mb_id m = mailboxId \<and> mb_status m = ACTIVE) (mailboxes s)) = Some mbox"
    and "fetch_messages ev = Inr messages" and "messages \<noteq> []"
  shows "processMailbox ev det mailboxId s =
           (case write_checkpoint ev mailboxId
                   (snd (process_messages ev det mbox messages (mb_last_synced_uid mbox) s))
                   (fst (process_messages ev det mbox messages (mb_last_synced_uid mbox) s)) of
              Inl e \<Rightarrow> record_error ev mailboxId e
                         (fst (process_messages ev det mbox messages (mb_last_synced_uid mbox) s))
            | Inr s2 \<Rightarrow> s2)"
  using assms by (simp add: processMailbox_def case_prod_beta)

lemma cycle_checkpoint:
  assumes "fault ev SelectMailbox = Works"
    and "maybeSingle (filter (\<lambda>m. mb_id m = mailboxId \<and> mb_status m = ACTIVE) (mailboxes s)) = Some mbox"
    and "fetch_messages ev = Inr messages" and "messages \<noteq> []"
    and "fault ev UpdateMailbox = Works"
  shows "last_synced_uid_of mailboxId (processMailbox ev det mailboxId s) =
           Some (Max (insert (mb_last_synced_uid mbox) (set (map m_uid messages))))"
proof -
  let ?r = "process_messages ev det mbox messages (mb_last_synced_uid mbox) s"
  from assms(2) have "mbox \<in> set (mailboxes s) \<and> mb_id mbox = mailboxId"
    using maybeSingle_member [of "\<lambda>m. mb_id m = mailboxId \<and> mb_status m = ACTIVE" "mailboxes s" mbox]
    by simp
  then have ex: "list_ex (\<lambda>m. mb_id m = mailboxId) (mailboxes (fst ?r))"
    by (auto simp: process_messages_mailboxes list_ex_iff)
  from assms(1-4) have "processMailbox ev det mailboxId s =
           (case write_checkpoint ev mailboxId (snd ?r) (fst ?r) of
              Inl e \<Rightarrow> record_error ev mailboxId e (fst ?r) | Inr s2 \<Rightarrow> s2)"
    by (rule cycle_result)
  with assms(5) have "mailboxes (processMailbox ev det mailboxId s) =
      map (\<lambda>m. if mb_id m = mailboxId
                then m\<lparr> mb_last_synced_uid := snd ?r, mb_last_synced_at := Some (clock ev),
                        mb_status := ACTIVE, mb_last_error := None \<rparr>
                else m) (mailboxes (fst ?r))"
    by (simp add: write_checkpoint_def)
  then have "last_synced_uid_of mailboxId (processMailbox ev det mailboxId s) = Some (snd ?r)"
    using checkpoint_found [OF ex] by (simp add: last_synced_uid_of_def)
  then show ?thesis by (simp add: process_messages_max)
qed

lemma synced_at_found:
  "list_ex (\<lambda>m. mb_id m = i) ms \<Longrightarrow>
   map_option mb_last_synced_at
     (find (\<lambda>m. mb_id m = i)
        (map (\<lambda>m. if mb_id m = i
                   then m\<lparr> mb_last_synced_uid := M, mb_last_synced_at := a,
                           mb_status := st, mb_last_error := le \<rparr>
                   else m) ms)) = Some a"
  by (induction ms) auto

lemma cycle_synced_at:
  assumes "fault ev SelectMailbox = Works"
    and "maybeSingle (filter (\<lambda>m. mb_id m = mailboxId \<and> mb_status m = ACTIVE) (mailboxes s)) = Some mbox"
    and "fetch_messages ev = Inr messages" and "messages \<noteq> []"
    and "fault ev UpdateMailbox = Works"
  shows "last_synced_at_of mailboxId (processMailbox ev det mailboxId s) = Some (Some (clock ev))"
proof -
  let ?r = "process_messages ev det mbox messages (mb_last_synced_uid mbox) s"
  from assms(2) have "mbox \<in> set (mailboxes s) \<and> mb_id mbox = mailboxId"
    using maybeSingle_member [of "\<lambda>m. mb_id m = mailboxId \<and> mb_status m = ACTIVE" "mailboxes s" mbox]
    by simp
  then have ex: "list_ex (\<lambda>m. mb_id m = mailboxId) (mailboxes (fst ?r))"
    by (auto simp: process_messages_mailboxes list_ex_iff)
  from assms(1-4) have "processMailbox ev det mailboxId s =
           (case write_checkpoint ev mailboxId (snd ?r) (fst ?r) of
              Inl e \<Rightarrow> record_error ev mailboxId e (fst ?r) | Inr s2 \<Rightarrow> s2)"
    by (rule cycle_result)
  with assms(5) have "mailboxes (processMailbox ev det mailboxId s) =
      map (\<lambda>m. if mb_id m = mailboxId
                then m\<lparr> mb_last_synced_uid := snd ?r, mb_last_synced_at := Some (clock ev),
                        mb_status := ACTIVE, mb_last_error := None \<rparr>
                else m) (mailboxes (fst ?r))"
    by (simp add: write_checkpoint_def)
  then show ?thesis
    using synced_at_found [OF ex] by (simp add: last_synced_at_of_def)
qed

lemma cycle_tables:
  assumes "fault ev SelectMailbox = Works"
    and "maybeSingle (filter (\<lambda>m. mb_id m = mailboxId \<and> mb_status m = ACTIVE) (mailboxes s)) = Some mbox"
    and "fetch_messages ev = Inr messages"
  shows "emails (processMailbox ev det mailboxId s) =
           emails (fst (process_messages ev det mbox messages (mb_last_synced_uid mbox) s)) \<and>
         email_threads (processMailbox ev det mailboxId s) =
           email_threads (fst (process_messages ev det mbox messages (mb_last_synced_uid mbox) s)) \<and>
         email_bounces (processMailbox ev det mailboxId s) =
           email_bounces (fst (process_messages ev det mbox messages (mb_last_synced_uid mbox) s)) \<and>
         email_bounce_events (processMailbox ev det mailboxId s) =
           email_bounce_events (fst (process_messages ev det mbox messages (mb_last_synced_uid mbox) s)) \<and>
         length (mailboxes (processMailbox ev det mailboxId s)) = length (mailboxes s)"
proof (cases "messages = []")
  case True
  with assms show ?thesis by (simp add: processMailbox_def)
next
  case False
  let ?r = "process_messages ev det mbox messages (mb_last_synced_uid mbox) s"
  from assms False have "processMailbox ev det mailboxId s =
           (case write_checkpoint ev mailboxId (snd ?r) (fst ?r) of
              Inl e \<Rightarrow> record_error ev mailboxId e (fst ?r) | Inr s2 \<Rightarrow> s2)"
    by (rule cycle_result)
  moreover have "length (mailboxes (fst ?r)) = length (mailboxes s)"
    by (simp add: process_messages_mailboxes)
  ultimately show ?thesis
    by (auto simp: write_checkpoint_def record_error_def split: outcome.splits)
qed

lemma s5_fetch:
  "fetch_messages env_s5 = Inr [good_message 5000 10, good_message 5000 11, good_message 5000 12]"
  by (simp add: fetch_messages_def env_s5_def fetchNewMessages_def env_batchSize_def
        good_item_def good_message_def)

lemma s5_mailbox:
  "maybeSingle (filter (\<lambda>m. mb_id m = 1 \<and> mb_status m = ACTIVE) (mailboxes store0)) = Some mailbox0"
  by (simp add: store0_def mailbox0_def maybeSingle_def)

lemma good_message_uid: "m_uid (good_message t n) = n"
  by (simp add: good_message_def make_message_def good_item_def)

lemma good_message_id:
  "message_id_of mbox (good_message t n) = ''<m'' @ digits_of n @ ''@mail.example>''"
  by (simp add: good_message_def make_message_def good_parsed_def message_id_of_def
        or_string_def or_option_def truthy_def)


lemma digits_10_12: "digits_of 10 = ''10''" "digits_of 12 = ''12''"
  by code_simp+

lemma s5_ids:
  "message_id_of mailbox0 (good_message 5000 10) = ''<m10@mail.example>''"
  "message_id_of mailbox0 (good_message 5000 12) = ''<m12@mail.example>''"
  by (simp_all add: good_message_id digits_10_12 del: digits_of.simps)

lemma mailbox0_id: "mb_id mailbox0 = 1"
  by (simp add: mailbox0_def)

lemma store0_keys: "email_keys store0 = []"
  by (simp add: email_keys_def store0_def)


lemma quiet_cycle:
  assumes "fault ev SelectMailbox = Works" and "fetch_messages ev = Inr []"
  shows "processMailbox ev det mailboxId s = s"
  using assms by (simp add: processMailbox_def split: option.splits)


lemma quiet_fetch: "fetch_messages env_quiet = Inr []"
  by (simp add: fetch_messages_def env_quiet_def fetchNewMessages_def env_batchSize_def)


lemma again_fetch: "fetch_messages env_again = Inr [good_message 5000 10]"
  by (simp add: fetch_messages_def env_again_def env_quiet_def fetchNewMessages_def
        env_batchSize_def good_item_def good_message_def)



lemma event_frame_tables:
  "email_bounce_events (fst (insert_bounce_event ev u userId bounceId bd
      (s\<lparr>email_bounces := bs\<rparr>))) =
   email_bounce_events (fst (insert_bounce_event ev u userId bounceId bd s))"
  by (simp add: insert_bounce_event_def split: outcome.splits)



subsection \<open>The checkpoint\<close>

text \<open>
  Claim C1, as the code has it. In every sync cycle that fetches at least one message
  and writes its checkpoint, \<open>last_synced_uid\<close> after the cycle is the largest of its
  prior value and the UIDs of all fetched messages, whether or not persisting any of
  them failed: \<open>maxUid\<close> is raised before a message is processed.
\<close>

theorem checkpoint_is_largest_seen:
  assumes "fault ev SelectMailbox = Works"
    and "maybeSingle (filter (\<lambda>m. mb_id m = mailboxId \<and> mb_status m = ACTIVE) (mailboxes s)) = Some mbox"
    and "fetch_messages ev = Inr messages" and "messages \<noteq> []"
    and "fault ev UpdateMailbox = Works"
  shows "last_synced_uid_of mailboxId (processMailbox ev det mailboxId s) =
           Some (Max (insert (mb_last_synced_uid mbox) (set (map m_uid messages))))"
  using assms by (rule cycle_checkpoint)


theorem checkpoint_is_largest_seen_witness:
  "fault env_s5 SelectMailbox = Works \<and>
   maybeSingle (filter (\<lambda>m. mb_id m = 1 \<and> mb_status m = ACTIVE) (mailboxes store0)) = Some mailbox0 \<and>
   fetch_messages env_s5 = Inr [good_message 5000 10, good_message 5000 11, good_message 5000 12] \<and>
   [good_message 5000 10, good_message 5000 11, good_message 5000 12] \<noteq> [] \<and>
   fault env_s5 UpdateMailbox = Works \<and>
   last_synced_uid_of 1 (processMailbox env_s5 detector0 1 store0) =
     Some (Max (insert (mb_last_synced_uid mailbox0)
                  (set (map m_uid [good_message 5000 10, good_message 5000 11, good_message 5000 12]))))"
proof -
  have h1: "fault env_s5 SelectMailbox = Works" by (simp add: env_s5_def)
  have h4: "[good_message 5000 10, good_message 5000 11, good_message 5000 12] \<noteq> []" by simp
  have h5: "fault env_s5 UpdateMailbox = Works" by (simp add: env_s5_def)
  from checkpoint_is_largest_seen [OF h1 s5_mailbox s5_fetch h4 h5, of detector0]
    h1 s5_mailbox s5_fetch h4 h5
  show ?thesis by blast
qed


text \<open>
  Scenario S5 on the code: the batch holds UIDs 10, 11 and 12 and the store rejects the
  insert of 11. The emails of 10 and 12 are stored, and the checkpoint is 12, not 10.
\<close>

theorem checkpoint_passes_failed_uid:
  "fetch_messages env_s5 = Inr [good_message 5000 10, good_message 5000 11, good_message 5000 12] \<and>
   map (\<lambda>k. fst (snd k)) (email_keys (processMailbox env_s5 detector0 1 store0)) = [10, 12] \<and>
   last_synced_uid_of 1 (processMailbox env_s5 detector0 1 store0) = Some 12"
proof -
  let ?g10 = "good_message 5000 10" and ?g11 = "good_message 5000 11"
    and ?g12 = "good_message 5000 12"
  define sa where "sa = fst (processMessage env_s5 detector0 mailbox0 ?g10 store0)"
  define sb where "sb = fst (processMessage env_s5 detector0 mailbox0 ?g11 sa)"
  define sc where "sc = fst (processMessage env_s5 detector0 mailbox0 ?g12 sb)"
  have w10: "store_works env_s5 (m_uid ?g10)" and w12: "store_works env_s5 (m_uid ?g12)"
    by (simp_all add: store_works_def env_s5_def good_message_uid)
  have f11: "fault env_s5 (InsertEmail (m_uid ?g11)) \<noteq> Works"
    by (simp add: env_s5_def good_message_uid)
  have "fresh mailbox0 ?g10 store0" by (simp add: fresh_def store0_def)
  with w10 have "email_keys sa =
      email_keys store0 @ [(mb_id mailbox0, m_uid ?g10, message_id_of mailbox0 ?g10)]"
    unfolding sa_def by (rule email_keys_stored)
  then have ka: "email_keys sa = [(1, 10, ''<m10@mail.example>'')]"
    by (simp add: store0_keys mailbox0_id good_message_uid s5_ids)
  from f11 have "email_keys sb = email_keys sa"
    unfolding sb_def by (rule email_keys_not_inserted)
  with ka have kb: "email_keys sb = [(1, 10, ''<m10@mail.example>'')]" by simp
  have "fresh mailbox0 ?g12 sb"
    by (simp add: fresh_keys kb good_message_uid s5_ids mailbox0_id)
  with w12 have "email_keys sc =
      email_keys sb @ [(mb_id mailbox0, m_uid ?g12, message_id_of mailbox0 ?g12)]"
    unfolding sc_def by (rule email_keys_stored)
  with kb have kc: "email_keys sc = [(1, 10, ''<m10@mail.example>''), (1, 12, ''<m12@mail.example>'')]"
    by (simp add: mailbox0_id good_message_uid s5_ids)
  have loop: "fst (process_messages env_s5 detector0 mailbox0 [?g10, ?g11, ?g12]
                    (mb_last_synced_uid mailbox0) store0) = sc"
    by (simp add: sa_def sb_def sc_def)
  have h1: "fault env_s5 SelectMailbox = Works" by (simp add: env_s5_def)
  have h5: "fault env_s5 UpdateMailbox = Works" by (simp add: env_s5_def)
  from cycle_tables [OF h1 s5_mailbox s5_fetch, of detector0] loop
  have "emails (processMailbox env_s5 detector0 1 store0) = emails sc" by simp
  then have "email_keys (processMailbox env_s5 detector0 1 store0) = email_keys sc"
    by (simp add: email_keys_def)
  with kc have uids: "map (\<lambda>k. fst (snd k)) (email_keys (processMailbox env_s5 detector0 1 store0)) = [10, 12]"
    by simp
  have "[?g10, ?g11, ?g12] \<noteq> []" by simp
  with cycle_checkpoint [OF h1 s5_mailbox s5_fetch _ h5, of detector0]
  have "last_synced_uid_of 1 (processMailbox env_s5 detector0 1 store0) =
          Some (Max (insert (mb_last_synced_uid mailbox0) (set (map m_uid [?g10, ?g11, ?g12]))))"
    by blast
  then have "last_synced_uid_of 1 (processMailbox env_s5 detector0 1 store0) = Some 12"
    by (simp add: good_message_uid mailbox0_def)
  with uids s5_fetch show ?thesis by blast
qed

text \<open>
  Claim C8. In a sync cycle in which the fetcher returns zero messages the coordinator is
  to update \<open>last_synced_at\<close> and return, leaving \<open>last_synced_uid\<close> unchanged. The
  code returns before its only write to the mailbox: a cycle without new messages at
  instant 5000 leaves \<open>last_synced_at\<close> at its old value 1000 (and \<open>last_synced_uid\<close>
  at 9), whereas the cycle of scenario S5, which did fetch messages, sets
  \<open>last_synced_at\<close> to 5000.
\<close>

theorem quiet_cycle_keeps_last_synced_at:
  "fetch_messages env_quiet = Inr [] \<and> clock env_quiet = 5000 \<and>
   last_synced_at_of 1 store0 = Some (Some 1000) \<and>
   last_synced_at_of 1 (processMailbox env_quiet detector0 1 store0) = Some (Some 1000) \<and>
   last_synced_uid_of 1 (processMailbox env_quiet detector0 1 store0) = Some 9 \<and>
   clock env_s5 = 5000 \<and>
   last_synced_at_of 1 (processMailbox env_s5 detector0 1 store0) = Some (Some 5000)"
proof -
  have h1: "fault env_quiet SelectMailbox = Works" by (simp add: env_quiet_def)
  have q: "processMailbox env_quiet detector0 1 store0 = store0"
    using h1 quiet_fetch by (rule quiet_cycle)
  have a: "last_synced_at_of 1 store0 = Some (Some 1000)"
    by (simp add: last_synced_at_of_def store0_def mailbox0_def)
  have u: "last_synced_uid_of 1 store0 = Some 9"
    by (simp add: last_synced_uid_of_def store0_def mailbox0_def)
  have c: "clock env_quiet = 5000" "clock env_s5 = 5000"
    by (simp_all add: env_quiet_def env_s5_def)
  have g1: "fault env_s5 SelectMailbox = Works" by (simp add: env_s5_def)
  have g5: "fault env_s5 UpdateMailbox = Works" by (simp add: env_s5_def)
  have "[good_message 5000 10, good_message 5000 11, good_message 5000 12] \<noteq> []" by simp
  with cycle_synced_at [OF g1 s5_mailbox s5_fetch _ g5, of detector0]
  have "last_synced_at_of 1 (processMailbox env_s5 detector0 1 store0) = Some (Some (clock env_s5))"
    by blast
  with q a u c quiet_fetch show ?thesis by simp
qed

subsection \<open>Idempotent ingest\<close>

text \<open>
  Claim C2. In a store that keeps \<open>(mailbox_id, uid)\<close> unique, processing a message
  whose mailbox and UID already have an email row, with the dedup lookup answered,
  returns without side effects: the store is unchanged, so no email row is inserted, no
  thread aggregate is updated, no bounce aggregate is changed and no bounce event is
  appended. Hence a cycle over such messages leaves every table but \<open>mailboxes\<close> as it
  was, and the number of mailbox rows too.
\<close>

theorem dedup_guard_no_side_effects:
  assumes "emails_unique s"
    and "\<forall>m\<in>set messages. fault ev (SelectEmail (m_uid m)) = Works \<and> has_email mbox m s"
  shows "(\<forall>m\<in>set messages. processMessage ev det mbox m s = (s, None)) \<and>
         fst (process_messages ev det mbox messages maxUid s) = s \<and>
         (fault ev SelectMailbox = Works \<and>
          maybeSingle (filter (\<lambda>m. mb_id m = mailboxId \<and> mb_status m = ACTIVE) (mailboxes s))
            = Some mbox \<and>
          fetch_messages ev = Inr messages \<longrightarrow>
            emails (processMailbox ev det mailboxId s) = emails s \<and>
            email_threads (processMailbox ev det mailboxId s) = email_threads s \<and>
            email_bounces (processMailbox ev det mailboxId s) = email_bounces s \<and>
            email_bounce_events (processMailbox ev det mailboxId s) = email_bounce_events s \<and>
            length (mailboxes (processMailbox ev det mailboxId s)) = length (mailboxes s))"
proof (intro conjI ballI impI)
  fix m assume "m \<in> set messages"
  with assms show "processMessage ev det mbox m s = (s, None)"
    by (simp add: processMessage_duplicate)
next
  from assms show loop: "fst (process_messages ev det mbox messages maxUid s) = s"
    by (simp add: process_messages_duplicates)
next
  assume a: "fault ev SelectMailbox = Works \<and>
          maybeSingle (filter (\<lambda>m. mb_id m = mailboxId \<and> mb_status m = ACTIVE) (mailboxes s))
            = Some mbox \<and>
          fetch_messages ev = Inr messages"
  from assms have loop: "fst (process_messages ev det mbox messages (mb_last_synced_uid mbox) s) = s"
    by (simp add: process_messages_duplicates)
  from a have t: "emails (processMailbox ev det mailboxId s) =
           emails (fst (process_messages ev det mbox messages (mb_last_synced_uid mbox) s)) \<and>
         email_threads (processMailbox ev det mailboxId s) =
           email_threads (fst (process_messages ev det mbox messages (mb_last_synced_uid mbox) s)) \<and>
         email_bounces (processMailbox ev det mailboxId s) =
           email_bounces (fst (process_messages ev det mbox messages (mb_last_synced_uid mbox) s)) \<and>
         email_bounce_events (processMailbox ev det mailboxId s) =
           email_bounce_events (fst (process_messages ev det mbox messages (mb_last_synced_uid mbox) s)) \<and>
         length (mailboxes (processMailbox ev det mailboxId s)) = length (mailboxes s)"
    using cycle_tables by blast
  from t loop show "emails (processMailbox ev det mailboxId s) = emails s" by simp
  from t loop show "email_threads (processMailbox ev det mailboxId s) = email_threads s" by simp
  from t loop show "email_bounces (processMailbox ev det mailboxId s) = email_bounces s" by simp
  from t loop show "email_bounce_events (processMailbox ev det mailboxId s) = email_bounce_events s"
    by simp
  from t show "length (mailboxes (processMailbox ev det mailboxId s)) = length (mailboxes s)"
    by simp
qed


theorem dedup_guard_no_side_effects_witness:
  "emails_unique store_seen \<and>
   fault env_again (SelectEmail (m_uid (good_message 5000 10))) = Works \<and>
   has_email mailbox0 (good_message 5000 10) store_seen \<and>
   fault env_again SelectMailbox = Works \<and>
   maybeSingle (filter (\<lambda>m. mb_id m = 1 \<and> mb_status m = ACTIVE) (mailboxes store_seen))
     = Some mailbox0 \<and>
   fetch_messages env_again = Inr [good_message 5000 10] \<and>
   processMessage env_again detector0 mailbox0 (good_message 5000 10) store_seen
     = (store_seen, None) \<and>
   emails (processMailbox env_again detector0 1 store_seen) = emails store_seen \<and>
   email_bounce_events (processMailbox env_again detector0 1 store_seen)
     = email_bounce_events store_seen"
proof -
  have u: "emails_unique store_seen"
    by (simp add: emails_unique_def store_seen_def store0_def)
  have h: "\<forall>m\<in>set [good_message 5000 10].
      fault env_again (SelectEmail (m_uid m)) = Works \<and> has_email mailbox0 m store_seen"
    by (simp add: env_again_def env_quiet_def has_email_def store_seen_def store0_def
          new_email_keys good_message_uid)
  have h1: "fault env_again SelectMailbox = Works" by (simp add: env_again_def env_quiet_def)
  have h2: "maybeSingle (filter (\<lambda>m. mb_id m = 1 \<and> mb_status m = ACTIVE) (mailboxes store_seen))
     = Some mailbox0"
    by (simp add: store_seen_def store0_def mailbox0_def maybeSingle_def)
  from dedup_guard_no_side_effects [OF u h, of detector0 0 1] h1 h2 again_fetch u h
  show ?thesis by simp
qed

subsection \<open>Failures of the bounce writes\<close>



end
